theory Spec2Isabelle
  imports Complex_Main "HOL-Library.Signed_Division"
begin

section \<open>LedgerLine: the dash list of one line-slot (staff.cpp)\<close>

text \<open>
  A dash is the pair \<open>(left, right)\<close> of \<open>std::pair<int, int>\<close>; \<open>m_dashes\<close> is the
  \<open>std::list\<close> of them. The C++ iterators \<open>previous\<close> and \<open>iter\<close> are positions in
  that list.
\<close>

type_synonym dash = "int \<times> int"

text \<open>
  The test \<open>previous->second > iter->first + 1.5 * extension\<close>. The right-hand side
  is evaluated in \<open>double\<close>; for 32-bit operands every intermediate value is a multiple
  of one half below \<open>2^53\<close>, so the floating-point computation is exact and the test is
  the comparison of the mathematical values.
\<close>

definition overlaps :: "dash \<Rightarrow> dash \<Rightarrow> int \<Rightarrow> bool" where
  "overlaps previous iter extension \<longleftrightarrow>
     real_of_int (snd previous) > real_of_int (fst iter) + 1.5 * real_of_int extension"

text \<open>
  The first loop of \<open>AddDash\<close>: the position at which the iterator stops, that is the
  first dash whose left edge is greater than \<open>left\<close>, or the end of the list.
\<close>

fun find_position :: "dash list \<Rightarrow> int \<Rightarrow> nat" where
  "find_position [] left = 0"
| "find_position (d # ds) left = (if fst d > left then 0 else Suc (find_position ds left))"

text \<open>\<open>std::list::insert\<close> before a position and \<open>std::list::erase\<close> at a position.\<close>

definition list_insert :: "'a list \<Rightarrow> nat \<Rightarrow> 'a \<Rightarrow> 'a list" where
  "list_insert xs i x = take i xs @ x # drop i xs"

definition list_erase :: "'a list \<Rightarrow> nat \<Rightarrow> 'a list" where
  "list_erase xs i = take i xs @ drop (Suc i) xs"

text \<open>
  The merge loop, on the state \<open>(m_dashes, previous, iter)\<close>. \<open>iter \<noteq> end\<close> is
  \<open>iter < length dashes\<close>; after \<open>erase\<close> the returned iterator designates the element
  that followed the erased one, which is the same index. In \<open>AddDash\<close> the loop starts
  at \<open>previous = 0\<close>, \<open>iter = 1\<close> and keeps \<open>previous < iter\<close>, so both reads are
  inside the list whenever the loop body runs.
\<close>

function merge_loop :: "int \<Rightarrow> dash list \<Rightarrow> nat \<Rightarrow> nat \<Rightarrow> dash list" where
  "merge_loop extension dashes previous iter =
     (if iter < length dashes then
        (if overlaps (dashes ! previous) (dashes ! iter) extension then
           merge_loop extension
             (list_erase
                (dashes[previous := (fst (dashes ! previous),
                                     max (snd (dashes ! iter)) (snd (dashes ! previous)))])
                iter)
             previous iter
         else merge_loop extension dashes iter (Suc iter))
      else dashes)"
  by pat_completeness auto
termination
  by (relation "measure (\<lambda>(extension, dashes, previous, iter). length dashes - iter)")
     (auto simp: list_erase_def)

declare merge_loop.simps [simp del]

text \<open>
  \<open>LedgerLine::AddDash\<close>. The violated \<open>assert(left < right)\<close> is the result \<open>None\<close>.
\<close>

definition AddDash :: "dash list \<Rightarrow> int \<Rightarrow> int \<Rightarrow> int \<Rightarrow> dash list option" where
  "AddDash m_dashes left right extension =
     (if \<not> left < right then None
      else Some (merge_loop extension
                   (list_insert m_dashes (find_position m_dashes left) (left, right)) 0 1))"

text \<open>A sequence of \<open>AddDash\<close> calls \<open>(left, right, extension)\<close> on one ledger line.\<close>

fun AddDashes :: "dash list \<Rightarrow> (int \<times> int \<times> int) list \<Rightarrow> dash list option" where
  "AddDashes dashes [] = Some dashes"
| "AddDashes dashes ((left, right, extension) # calls) =
     (case AddDash dashes left right extension of
        None \<Rightarrow> None
      | Some dashes' \<Rightarrow> AddDashes dashes' calls)"

subsection \<open>The algorithm in the words of the specification\<close>

text \<open>
  Insert the dash sorted by left edge: behind the leading dashes whose left edge is not
  greater than the new one.
\<close>

definition spec_insert_sorted :: "dash \<Rightarrow> dash list \<Rightarrow> dash list" where
  "spec_insert_sorted d ds =
     takeWhile (\<lambda>x. fst x \<le> fst d) ds @ d # dropWhile (\<lambda>x. fst x \<le> fst d) ds"

text \<open>
  Sweep adjacent pairs once: if the previous dash's right edge exceeds the next dash's
  left edge by more than 1.5 times the extension unit, merge them (new right edge the
  maximum of both) and drop the absorbed entry, otherwise advance.
\<close>

fun spec_sweep :: "int \<Rightarrow> dash list \<Rightarrow> dash list" where
  "spec_sweep e (p # n # rest) =
     (if real_of_int (snd p) - real_of_int (fst n) > 1.5 * real_of_int e
      then spec_sweep e ((fst p, max (snd p) (snd n)) # rest)
      else p # spec_sweep e (n # rest))"
| "spec_sweep e ds = ds"

text \<open>
  No adjacent pair in which the earlier dash's right edge exceeds the later dash's left
  edge by more than 1.5 times the extension unit.
\<close>

fun within_threshold :: "int \<Rightarrow> dash list \<Rightarrow> bool" where
  "within_threshold e (p # n # rest) =
     (\<not> real_of_int (snd p) - real_of_int (fst n) > 1.5 * real_of_int e
      \<and> within_threshold e (n # rest))"
| "within_threshold e ds = True"


section \<open>Staff (staff.cpp)\<close>

subsection \<open>Data\<close>

datatype data_NOTATIONTYPE =
    NOTATIONTYPE_NONE | NOTATIONTYPE_cmn | NOTATIONTYPE_mensural
  | NOTATIONTYPE_mensural_black | NOTATIONTYPE_mensural_white | NOTATIONTYPE_neume
  | NOTATIONTYPE_tab | NOTATIONTYPE_tab_guitar | NOTATIONTYPE_tab_lute_italian
  | NOTATIONTYPE_tab_lute_french | NOTATIONTYPE_tab_lute_german

datatype data_STEMDIRECTION = STEMDIRECTION_NONE | STEMDIRECTION_up | STEMDIRECTION_down

datatype data_BOOLEAN = BOOLEAN_NONE | BOOLEAN_true | BOOLEAN_false

datatype ClassId = DOC | SYSTEM | MEASURE | STAFF | LAYER | NOTE | VERSE | SYL | APP | SIC | PEDAL

datatype DocType = Raw | Rendering | Transcription | Facs

text \<open>
  A violated \<open>assert\<close> and the use of a null pointer that the code does not guard
  against are results of their own.
\<close>

datatype error = AssertionFailure | NullPointer | OutOfRange

text \<open>Objects are referred to by address; \<open>NULL\<close> is \<open>None\<close>.\<close>

type_synonym ptr = nat

type_synonym LedgerLine = "dash list"

text \<open>
  What \<open>Staff::IsSupportedChild\<close> reads and writes of a child object: its class id,
  the answer of \<open>IsEditorialElement()\<close>, and its \<open>@n\<close> with \<open>HasN()\<close>.
\<close>

record Object =
  classId :: ClassId
  isEditorialElement :: bool
  hasN :: bool
  att_n :: int

record StaffAlignment =
  yRel :: int

text \<open>
  The staff with its own members, and of its base classes the identifier, the child
  list and the cached drawing Y (\<open>Object\<close>), \<open>HasFacs()\<close> (\<open>FacsimileInterface\<close>),
  \<open>@n\<close> and \<open>@visible\<close>.
\<close>

record Staff =
  m_id :: string
  m_children :: "Object list"
  m_cachedDrawingY :: int
  hasFacs :: bool
  m_n :: int
  m_visible :: data_BOOLEAN
  m_yAbs :: int
  m_drawingStaffSize :: int
  m_drawingLines :: int
  m_drawingNotationType :: data_NOTATIONTYPE
  m_staffAlignment :: "StaffAlignment option"
  m_timeSpanningElements :: "ptr list"
  m_drawingStaffDef :: "ptr option"
  m_drawingTuning :: "ptr option"
  m_ledgerLinesAbove :: "LedgerLine list"
  m_ledgerLinesBelow :: "LedgerLine list"
  m_ledgerLinesAboveCue :: "LedgerLine list"
  m_ledgerLinesBelowCue :: "LedgerLine list"

subsection \<open>Reset, ResetData, CloneReset\<close>

definition ClearLedgerLines :: "Staff \<Rightarrow> Staff" where
  "ClearLedgerLines this =
     this\<lparr>m_ledgerLinesAbove := [], m_ledgerLinesBelow := [],
          m_ledgerLinesAboveCue := [], m_ledgerLinesBelowCue := []\<rparr>"

text \<open>
  \<open>Staff::Reset\<close>. The resets of the base classes and attribute classes
  (\<open>Object::Reset\<close>, \<open>FacsimileInterface::Reset\<close>, \<open>ResetCoordY1\<close>, \<open>ResetNInteger\<close>,
  \<open>ResetTyped\<close>, \<open>ResetVisibility\<close>) are not in staff.cpp and are the parameter
  \<open>base_reset\<close>; \<open>VRV_UNSET\<close> is a macro defined elsewhere and is the parameter
  \<open>unset\<close>.
\<close>

definition Reset :: "int \<Rightarrow> (Staff \<Rightarrow> Staff) \<Rightarrow> Staff \<Rightarrow> Staff" where
  "Reset unset base_reset this =
     ClearLedgerLines
       ((base_reset this)\<lparr>m_yAbs := unset,
          m_drawingStaffSize := 100, m_drawingLines := 5,
          m_drawingNotationType := NOTATIONTYPE_NONE, m_staffAlignment := None,
          m_timeSpanningElements := [], m_drawingStaffDef := None,
          m_drawingTuning := None\<rparr>)"

text \<open>\<open>Staff::ResetData\<close> and \<open>Staff::ResetVerticalAlignment\<close>.\<close>

definition ResetData :: "Staff \<Rightarrow> Staff" where
  "ResetData this = ClearLedgerLines (this\<lparr>m_timeSpanningElements := []\<rparr>)"

definition ResetVerticalAlignment :: "Staff \<Rightarrow> Staff" where
  "ResetVerticalAlignment this = ClearLedgerLines (this\<lparr>m_staffAlignment := None\<rparr>)"

text \<open>
  Modelled from the spec: \<open>Object::CloneReset\<close> is defined in object.cpp, which is not
  among the sources. Section 4.5: the transient drawing caches of the clone are reset as
  if it were freshly constructed. For the part of the object that the base class owns
  or reaches that is the cached drawing Y, which becomes \<open>VRV_UNSET\<close>, and the
  reset-data handler of the object, which for a staff is \<open>Staff::ResetData\<close> above.
  No member that only \<open>Staff\<close> declares is assigned here.
\<close>

definition Object_CloneReset :: "int \<Rightarrow> Staff \<Rightarrow> Staff" where
  "Object_CloneReset unset this = ResetData (this\<lparr>m_cachedDrawingY := unset\<rparr>)"

text \<open>\<open>Staff::CloneReset\<close>: \<open>Object::CloneReset\<close>, then the seven assignments.\<close>

definition CloneReset :: "int \<Rightarrow> Staff \<Rightarrow> Staff" where
  "CloneReset unset this =
     (Object_CloneReset unset this)\<lparr>m_drawingStaffSize := 100, m_drawingLines := 5,
        m_drawingNotationType := NOTATIONTYPE_NONE, m_staffAlignment := None,
        m_timeSpanningElements := [], m_drawingStaffDef := None,
        m_drawingTuning := None\<rparr>"

subsection \<open>IsSupportedChild and AddChild\<close>

text \<open>\<open>GetChildCount(LAYER)\<close>: the number of children of that class.\<close>

definition GetChildCount :: "Staff \<Rightarrow> ClassId \<Rightarrow> nat" where
  "GetChildCount this c = length (filter (\<lambda>x. classId x = c) (m_children this))"

text \<open>
  \<open>Staff::IsSupportedChild\<close>: the answer and the child, whose \<open>@n\<close> the layer branch
  may set. The staff itself is only read.
\<close>

definition IsSupportedChild :: "Staff \<Rightarrow> Object \<Rightarrow> bool \<times> Object" where
  "IsSupportedChild this child =
     (if classId child = LAYER then
        (True, if \<not> hasN child
               then child\<lparr>hasN := True, att_n := int (GetChildCount this LAYER) + 1\<rparr>
               else child)
      else if isEditorialElement child then (True, child)
      else (False, child))"

text \<open>
  Modelled from the spec: \<open>Object::AddChild\<close> is defined in object.cpp, which is not
  among the sources. Section 4.1: it rejects (no mutation, the failure is reported) if
  the child's kind is not accepted by the parent's supported-child predicate; otherwise
  it takes ownership and appends. The Boolean is the report.
\<close>

definition AddChild :: "Staff \<Rightarrow> Object \<Rightarrow> bool \<times> Staff" where
  "AddChild this child =
     (case IsSupportedChild this child of
        (False, _) \<Rightarrow> (False, this)
      | (True, child') \<Rightarrow> (True, this\<lparr>m_children := m_children this @ [child']\<rparr>))"

subsection \<open>GetDrawingY\<close>

text \<open>
  The value of an \<open>int\<close> computation whose mathematical result is \<open>k\<close>: \<open>k\<close>
  itself inside the 32-bit range, and outside of it, where C++ leaves the signed
  overflow undefined, the two's-complement wrap-around that the usual targets carry
  out.
\<close>

definition int32 :: "int \<Rightarrow> int" where
  "int32 k = (k + 2147483648) mod 4294967296 - 2147483648"

text \<open>
  \<open>Staff::GetDrawingY\<close>. The surroundings it reads are parameters: \<open>doc\<close> is the
  type of the \<open>Doc\<close> ancestor (\<open>None\<close> when \<open>GetFirstAncestor(DOC)\<close> is null, which
  the code dereferences unguarded), \<open>facsimileY\<close> is what
  \<open>FacsimileInterface::GetDrawingY\<close> returns, \<open>system\<close> is the drawing Y of the
  \<open>System\<close> ancestor (\<open>None\<close> when there is none, which \<open>assert(system)\<close> rejects).
  The method is \<open>const\<close> but writes the \<open>mutable\<close> cache, so the staff is returned
  with the value. The one addition is an addition of two \<open>int\<close>: its result is
  \<open>int32\<close> of the mathematical sum.
\<close>

definition GetDrawingY ::
  "int \<Rightarrow> DocType option \<Rightarrow> int \<Rightarrow> int option \<Rightarrow> Staff \<Rightarrow> error + (int \<times> Staff)" where
  "GetDrawingY unset doc facsimileY system this =
     (if hasFacs this \<and> doc = None then Inl NullPointer
      else if hasFacs this \<and> doc = Some Facs then Inr (facsimileY, this)
      else if m_yAbs this \<noteq> unset then Inr (m_yAbs this, this)
      else
        (case m_staffAlignment this of
           None \<Rightarrow> Inr (0, this)
         | Some alignment \<Rightarrow>
             if m_cachedDrawingY this \<noteq> unset then Inr (m_cachedDrawingY this, this)
             else
               (case system of
                  None \<Rightarrow> Inl AssertionFailure
                | Some systemY \<Rightarrow>
                    Inr (int32 (systemY + yRel alignment),
                         this\<lparr>m_cachedDrawingY := int32 (systemY + yRel alignment)\<rparr>))))"


subsection \<open>ConvertToCastOffMensural\<close>

text \<open>The target measure with the staves attached to it.\<close>

record Measure =
  measure_children :: "Staff list"

record ConvertToCastOffMensuralParams =
  m_targetStaff :: "Staff option"
  m_targetMeasure :: "Measure option"

text \<open>
  Modelled from the spec: \<open>Object::GenerateID\<close> is defined in object.cpp, which is not
  among the sources. Sections 4.5 and 8 (property 7): the identifier is newly generated
  and distinct from the persistent identifiers of the document. \<open>ids_in_use\<close> is the
  list of the identifiers that the nodes of the document carry; the generated
  identifier is the prefix that the constructor of \<open>Staff\<close> passes to \<open>Object\<close>,
  followed by more digits than any identifier in use has characters.
\<close>

definition GenerateID :: "string list \<Rightarrow> string" where
  "GenerateID ids_in_use =
     ''staff-'' @ replicate (Suc (foldr max (map length ids_in_use) 0)) (CHR ''0'')"

text \<open>
  Modelled from the spec: the \<open>new Staff\<close> made from the staff itself runs the implicit
  copy constructor of \<open>Staff\<close>, which copies every member, on top of the copy constructor of
  \<open>Object\<close>, which is in object.cpp and not among the sources. Section 4.5: the
  identifier that ends up on the original node is newly generated, so the copy starts
  with a generated identifier.
\<close>

definition Staff_copy :: "string list \<Rightarrow> Staff \<Rightarrow> Staff" where
  "Staff_copy ids_in_use other = other\<lparr>m_id := GenerateID ids_in_use\<rparr>"

text \<open>
  Modelled from the spec: \<open>Object::ClearChildren\<close> (object.cpp) leaves the node
  without children (section 4.5: attributes only, no children).
\<close>

definition ClearChildren :: "Staff \<Rightarrow> Staff" where
  "ClearChildren this = this\<lparr>m_children := []\<rparr>"

text \<open>
  Modelled from the spec: \<open>Object::SwapID\<close> (object.cpp) exchanges the identifiers of
  the two nodes (section 4.5: the first resulting segment receives the original's
  identifier, the original node the newly generated one).
\<close>

definition SwapID :: "Staff \<Rightarrow> Staff \<Rightarrow> Staff \<times> Staff" where
  "SwapID this other = (this\<lparr>m_id := m_id other\<rparr>, other\<lparr>m_id := m_id this\<rparr>)"

text \<open>
  Modelled from the spec: \<open>AddChild\<close> on the target measure (object.cpp and
  measure.cpp, not among the sources) attaches the staff behind the children already
  there (sections 4.1 and 4.5).
\<close>

definition Measure_AddChild :: "Measure \<Rightarrow> Staff \<Rightarrow> Measure" where
  "Measure_AddChild this child =
     this\<lparr>measure_children := measure_children this @ [child]\<rparr>"

text \<open>
  \<open>Staff::ConvertToCastOffMensural\<close>, returning the original staff and the parameter
  object as the call leaves them. \<open>assert(params->m_targetMeasure)\<close> is the only
  failure. \<open>unset\<close> is \<open>VRV_UNSET\<close> and \<open>ids_in_use\<close> the identifiers of the
  document, both for the base-class steps modelled above.
\<close>

definition ConvertToCastOffMensural ::
  "int \<Rightarrow> string list \<Rightarrow> Staff \<Rightarrow> ConvertToCastOffMensuralParams
     \<Rightarrow> error + (Staff \<times> ConvertToCastOffMensuralParams)" where
  "ConvertToCastOffMensural unset ids_in_use this params =
     (let target = Staff_copy ids_in_use this;
          target = ClearChildren target;
          target = CloneReset unset target;
          (target, this') = SwapID target this
      in case m_targetMeasure params of
           None \<Rightarrow> Inl AssertionFailure
         | Some targetMeasure \<Rightarrow>
             Inr (this', params\<lparr>m_targetStaff := Some target,
                                m_targetMeasure := Some (Measure_AddChild targetMeasure target)\<rparr>))"

subsection \<open>PrepareStaffCurrentTimeSpanning\<close>

text \<open>
  The loop over \<open>params->m_timeSpanningElements\<close>, with the staff's list as the
  accumulator. A measure is identified by its position in document order, so that
  pointer inequality is inequality of positions and one measure precedes another when
  its position is smaller. \<open>GetStartMeasure\<close> and \<open>IsOnStaff\<close> belong to
  \<open>TimeSpanningInterface\<close> (not among the sources) and are parameters;
  \<open>currentMeasure\<close> is the \<open>Measure\<close> ancestor of the staff, checked by
  \<open>assert(currentMeasure)\<close> inside the loop body.
\<close>

fun collect_time_spanning ::
  "(ptr \<Rightarrow> nat option) \<Rightarrow> (ptr \<Rightarrow> int \<Rightarrow> bool) \<Rightarrow> nat option \<Rightarrow> int
     \<Rightarrow> ptr list \<Rightarrow> ptr list \<Rightarrow> error + ptr list" where
  "collect_time_spanning GetStartMeasure IsOnStaff currentMeasure n [] elements =
     Inr elements"
| "collect_time_spanning GetStartMeasure IsOnStaff currentMeasure n (x # xs) elements =
     (if currentMeasure = None then Inl AssertionFailure
      else collect_time_spanning GetStartMeasure IsOnStaff currentMeasure n xs
             (if GetStartMeasure x \<noteq> currentMeasure \<and> IsOnStaff x n
              then elements @ [x] else elements))"

definition PrepareStaffCurrentTimeSpanning ::
  "(ptr \<Rightarrow> nat option) \<Rightarrow> (ptr \<Rightarrow> int \<Rightarrow> bool) \<Rightarrow> nat option \<Rightarrow> ptr list
     \<Rightarrow> Staff \<Rightarrow> error + Staff" where
  "PrepareStaffCurrentTimeSpanning GetStartMeasure IsOnStaff currentMeasure
       params_timeSpanningElements this =
     (case collect_time_spanning GetStartMeasure IsOnStaff currentMeasure (m_n this)
             params_timeSpanningElements (m_timeSpanningElements this) of
        Inl e \<Rightarrow> Inl e
      | Inr elements \<Rightarrow> Inr (this\<lparr>m_timeSpanningElements := elements\<rparr>))"

subsection \<open>CalcStem\<close>

text \<open>
  What \<open>CalcStem\<close> reads and writes of a layer. \<open>isEmpty\<close> is the answer of
  \<open>IsEmptyComparison(LAYER)\<close>, which is not among the sources. Layers are reached
  through pointers, and \<open>std::set_difference\<close> compares the pointers themselves, so
  the layers live in a store indexed by address.
\<close>

record Layer =
  layer_n :: int
  isEmpty :: bool
  hasCrossStaffFromBelow :: bool
  hasCrossStaffFromAbove :: bool
  m_drawingStemDir :: data_STEMDIRECTION

definition SetDrawingStemDir ::
  "(ptr \<Rightarrow> Layer) \<Rightarrow> ptr \<Rightarrow> data_STEMDIRECTION \<Rightarrow> (ptr \<Rightarrow> Layer)" where
  "SetDrawingStemDir store layer dir = store(layer := (store layer)\<lparr>m_drawingStemDir := dir\<rparr>)"

text \<open>\<open>std::set_difference\<close> on two ranges of pointers, with \<open>operator<\<close>.\<close>

fun set_difference :: "ptr list \<Rightarrow> ptr list \<Rightarrow> ptr list" where
  "set_difference [] ys = []"
| "set_difference (x # xs) [] = x # xs"
| "set_difference (x # xs) (y # ys) =
     (if x < y then x # set_difference xs (y # ys)
      else if y < x then set_difference (x # xs) ys
      else set_difference xs ys)"

text \<open>
  The layers the final loop runs over: \<open>layers\<close> is what
  \<open>FindAllDescendantsByType(LAYER, false)\<close> returned, in document order, and
  \<open>emptyLayers\<close> what \<open>FindAllDescendantsByComparison\<close> found among them.
\<close>

definition considered_layers :: "(ptr \<Rightarrow> Layer) \<Rightarrow> ptr list \<Rightarrow> ptr list" where
  "considered_layers store layers =
     (let emptyLayers = filter (\<lambda>l. isEmpty (store l)) layers
      in if emptyLayers \<noteq> [] then set_difference layers emptyLayers else layers)"

text \<open>
  \<open>Staff::CalcStem\<close>. \<open>GetN() % 2\<close> is the truncating remainder of C++, which is
  \<open>smod\<close>.
\<close>

definition CalcStem :: "(ptr \<Rightarrow> Layer) \<Rightarrow> ptr list \<Rightarrow> (ptr \<Rightarrow> Layer)" where
  "CalcStem store layers =
     (case layers of
        [] \<Rightarrow> store
      | layer # _ \<Rightarrow>
          if length layers < 2 then
            (if hasCrossStaffFromBelow (store layer)
               then SetDrawingStemDir store layer STEMDIRECTION_up
             else if hasCrossStaffFromAbove (store layer)
               then SetDrawingStemDir store layer STEMDIRECTION_down
             else store)
          else if length layers < 3 \<and> length (filter (\<lambda>l. isEmpty (store l)) layers) > 0
            then store
          else
            fold (\<lambda>object store.
                    SetDrawingStemDir store object
                      (if layer_n (store object) smod 2 \<noteq> 0
                       then STEMDIRECTION_up else STEMDIRECTION_down))
                 (considered_layers store layers) store)"

section \<open>The CMME importer (iocmme.cpp)\<close>

text \<open>
  The part of a pugixml document the importer looks at: elements with their children,
  and text nodes.
\<close>

datatype xml_node = Element string "xml_node list" | PCData string

fun node_children :: "xml_node \<Rightarrow> xml_node list" where
  "node_children (Element name cs) = cs"
| "node_children (PCData t) = []"

fun is_element :: "string \<Rightarrow> xml_node \<Rightarrow> bool" where
  "is_element name (Element name' cs) = (name = name')"
| "is_element name (PCData t) = False"

fun is_pcdata :: "xml_node \<Rightarrow> bool" where
  "is_pcdata (PCData t) = True"
| "is_pcdata (Element name cs) = False"

text \<open>\<open>node.select_node("Name")\<close>: the first child element of that name.\<close>

definition select_child :: "xml_node \<Rightarrow> string \<Rightarrow> xml_node option" where
  "select_child node name = find (is_element name) (node_children node)"

text \<open>\<open>node.text()\<close>: the first text child, if there is one.\<close>

definition node_text :: "xml_node \<Rightarrow> string option" where
  "node_text node =
     (case find is_pcdata (node_children node) of
        Some (PCData t) \<Rightarrow> Some t
      | _ \<Rightarrow> None)"

text \<open>
  \<open>CmmeInput::AsInt\<close> and \<open>CmmeInput::ChildAsInt\<close>, called on a node that exists.
  \<open>as_int\<close> is pugixml's conversion of a text to \<open>int\<close>, a parameter.
\<close>

definition AsInt :: "int \<Rightarrow> (string \<Rightarrow> int) \<Rightarrow> xml_node \<Rightarrow> int" where
  "AsInt unset as_int node = (case node_text node of Some t \<Rightarrow> as_int t | None \<Rightarrow> unset)"

definition ChildAsInt :: "int \<Rightarrow> (string \<Rightarrow> int) \<Rightarrow> xml_node \<Rightarrow> string \<Rightarrow> int" where
  "ChildAsInt unset as_int node child =
     (case select_child node child of
        Some childNode \<Rightarrow> AsInt unset as_int childNode
      | None \<Rightarrow> unset)"

text \<open>The decimal digits that \<open>%d\<close> prints for a number that is not negative.\<close>

definition digit_char :: "nat \<Rightarrow> char" where
  "digit_char d = ''0123456789'' ! d"

function decimal :: "nat \<Rightarrow> string" where
  "decimal k = (if k < 10 then [digit_char k] else decimal (k div 10) @ [digit_char (k mod 10)])"
  by pat_completeness auto
termination
  by (relation "measure id") auto

declare decimal.simps [simp del]

text \<open>
  \<open>musicSectionNode.select_node("./Voice[VoiceNum[text()='k']]")\<close>: the first
  \<open>Voice\<close> child that has a \<open>VoiceNum\<close> child with a text node equal to the decimal
  digits of \<open>k\<close>.
\<close>

definition select_voice :: "xml_node \<Rightarrow> nat \<Rightarrow> xml_node option" where
  "select_voice musicSectionNode k =
     find (\<lambda>v. is_element ''Voice'' v
             \<and> list_ex (\<lambda>c. is_element ''VoiceNum'' c
                           \<and> list_ex (\<lambda>t. t = PCData (decimal k)) (node_children c))
                 (node_children v))
          (node_children musicSectionNode)"

text \<open>
  The constructor \<open>Staff::Staff(int n)\<close>: \<open>Reset()\<close>, then \<open>SetN(n)\<close>. \<open>raw\<close> is the
  object as the constructors of the base classes leave it.
\<close>

definition Staff_new :: "int \<Rightarrow> (Staff \<Rightarrow> Staff) \<Rightarrow> Staff \<Rightarrow> int \<Rightarrow> Staff" where
  "Staff_new unset base_reset raw n = (Reset unset base_reset raw)\<lparr>m_n := n\<rparr>"

text \<open>
  \<open>CmmeInput::CreateStaff\<close>, returning the staff it adds to the current measure.
  \<open>m_mensInfos\<close> has \<open>numVoices\<close> entries, and \<open>m_mensInfos.at(numVoice - 1)\<close> throws
  outside of them; nothing catches that exception. The events of the voice only add
  children to the new layer, which are not represented.
\<close>

definition CreateStaff ::
  "int \<Rightarrow> (Staff \<Rightarrow> Staff) \<Rightarrow> (string \<Rightarrow> int) \<Rightarrow> nat \<Rightarrow> Staff \<Rightarrow> xml_node \<Rightarrow> error + Staff" where
  "CreateStaff unset base_reset as_int numVoices raw voiceNode =
     (let numVoice = ChildAsInt unset as_int voiceNode ''VoiceNum'';
          staff = Staff_new unset base_reset raw numVoice;
          currentLayer = \<lparr>classId = LAYER, isEditorialElement = False, hasN = True, att_n = 1\<rparr>
      in if numVoice - 1 < 0 \<or> int numVoices \<le> numVoice - 1 then Inl OutOfRange
         else Inr (snd (AddChild staff currentLayer)))"

text \<open>
  The loop of \<open>CmmeInput::CreateSection\<close> over the voice indices, with the children
  of the new measure as the accumulator; \<open>raw i\<close> is the raw object of the staff made
  for index \<open>i\<close>.
\<close>

fun section_loop ::
  "int \<Rightarrow> (Staff \<Rightarrow> Staff) \<Rightarrow> (string \<Rightarrow> int) \<Rightarrow> nat \<Rightarrow> (nat \<Rightarrow> Staff) \<Rightarrow> xml_node
     \<Rightarrow> nat list \<Rightarrow> Staff list \<Rightarrow> error + Staff list" where
  "section_loop unset base_reset as_int numVoices raw musicSectionNode [] staves = Inr staves"
| "section_loop unset base_reset as_int numVoices raw musicSectionNode (i # rest) staves =
     (case select_voice musicSectionNode (i + 1) of
        Some voice \<Rightarrow>
          (case CreateStaff unset base_reset as_int numVoices (raw i) voice of
             Inl e \<Rightarrow> Inl e
           | Inr staff \<Rightarrow>
               section_loop unset base_reset as_int numVoices raw musicSectionNode rest
                 (staves @ [staff]))
      | None \<Rightarrow>
          section_loop unset base_reset as_int numVoices raw musicSectionNode rest
            (staves @ [(Staff_new unset base_reset (raw i) (int i + 1))
                         \<lparr>m_visible := BOOLEAN_false\<rparr>]))"

text \<open>
  \<open>CmmeInput::CreateSection\<close>: the staves of the measure created for the section.
\<close>

definition CreateSection ::
  "int \<Rightarrow> (Staff \<Rightarrow> Staff) \<Rightarrow> (string \<Rightarrow> int) \<Rightarrow> nat \<Rightarrow> (nat \<Rightarrow> Staff) \<Rightarrow> xml_node
     \<Rightarrow> error + Staff list" where
  "CreateSection unset base_reset as_int numVoices raw musicSectionNode =
     section_loop unset base_reset as_int numVoices raw musicSectionNode [0..<numVoices] []"


section \<open>Statements in the words of the specification\<close>

text \<open>
  The selection in the words of the specification: the elements whose start measure
  precedes the current one and whose span is on the staff.
\<close>

definition spec_time_spanning ::
  "(ptr \<Rightarrow> nat option) \<Rightarrow> (ptr \<Rightarrow> int \<Rightarrow> bool) \<Rightarrow> nat \<Rightarrow> int \<Rightarrow> ptr list \<Rightarrow> ptr list" where
  "spec_time_spanning GetStartMeasure IsOnStaff current n elements =
     filter (\<lambda>x. (case GetStartMeasure x of Some start \<Rightarrow> start < current | None \<Rightarrow> False)
                  \<and> IsOnStaff x n) elements"

text \<open>
  A \<open>Voice\<close> element as the CMME format has it: at most one \<open>VoiceNum\<close> child, holding
  at most one text node.
\<close>

definition single_VoiceNum :: "xml_node \<Rightarrow> bool" where
  "single_VoiceNum voice \<longleftrightarrow>
     length (filter (is_element ''VoiceNum'') (node_children voice)) \<le> 1
     \<and> list_all (\<lambda>c. is_element ''VoiceNum'' c \<longrightarrow>
                     length (filter is_pcdata (node_children c)) \<le> 1)
          (node_children voice)"

text \<open>
  The staff that the section's measure is to hold for voice index \<open>i\<close>: the parsed voice
  with the number \<open>i + 1\<close> when the section has one, an invisible placeholder with that
  number otherwise.
\<close>

definition staff_for ::
  "int \<Rightarrow> (Staff \<Rightarrow> Staff) \<Rightarrow> (nat \<Rightarrow> Staff) \<Rightarrow> xml_node \<Rightarrow> nat \<Rightarrow> Staff" where
  "staff_for unset base_reset raw musicSectionNode i =
     (case select_voice musicSectionNode (i + 1) of
        Some voice \<Rightarrow>
          snd (AddChild (Staff_new unset base_reset (raw i) (int i + 1))
                 \<lparr>classId = LAYER, isEditorialElement = False, hasN = True, att_n = 1\<rparr>)
      | None \<Rightarrow> (Staff_new unset base_reset (raw i) (int i + 1))\<lparr>m_visible := BOOLEAN_false\<rparr>)"

section \<open>Example inputs\<close>

text \<open>
  \<open>example_unset\<close> stands for \<open>VRV_UNSET\<close>, a number that is not a coordinate;
  \<open>example_as_int\<close> reads a string of decimal digits as pugixml's \<open>as_int\<close> does.
  In \<open>stem_example\<close> the layer at address \<open>10 * n + e\<close> has the number \<open>n\<close> and is
  empty when \<open>e = 0\<close>; in the time-spanning example the element at address
  \<open>10 * m + n\<close> starts in measure \<open>m\<close> and is on staff \<open>n\<close>.
\<close>

definition example_staff :: Staff where
  "example_staff =
     \<lparr>m_id = ''staff-X'', m_children = [\<lparr>classId = LAYER, isEditorialElement = False, hasN = True, att_n = 1\<rparr>],
      m_cachedDrawingY = 1200, hasFacs = False, m_n = 1, m_visible = BOOLEAN_NONE,
      m_yAbs = 500, m_drawingStaffSize = 80, m_drawingLines = 4,
      m_drawingNotationType = NOTATIONTYPE_mensural,
      m_staffAlignment = Some \<lparr>yRel = - 300\<rparr>, m_timeSpanningElements = [7],
      m_drawingStaffDef = Some 3, m_drawingTuning = None,
      m_ledgerLinesAbove = [[(0, 10)]], m_ledgerLinesBelow = [],
      m_ledgerLinesAboveCue = [], m_ledgerLinesBelowCue = []\<rparr>"

definition example_unset :: int where
  "example_unset = - 2147483647"

definition stem_example :: "ptr \<Rightarrow> Layer" where
  "stem_example =
     (\<lambda>p. \<lparr>layer_n = int (p div 10), isEmpty = (p mod 10 = 0), hasCrossStaffFromBelow = False,
           hasCrossStaffFromAbove = False, m_drawingStemDir = STEMDIRECTION_NONE\<rparr>)"

definition example_GetStartMeasure :: "ptr \<Rightarrow> nat option" where
  "example_GetStartMeasure x = Some (x div 10)"

definition example_IsOnStaff :: "ptr \<Rightarrow> int \<Rightarrow> bool" where
  "example_IsOnStaff x n = (int (x mod 10) = n)"

definition example_params :: ConvertToCastOffMensuralParams where
  "example_params =
     \<lparr>m_targetStaff = None,
      m_targetMeasure = Some \<lparr>measure_children = [example_staff\<lparr>m_id := ''staff-W'', m_n := 2\<rparr>]\<rparr>\<rparr>"

definition example_ids :: "string list" where
  "example_ids = [''staff-X'', ''staff-W'', ''layer-1'']"

definition example_clone :: Staff where
  "example_clone =
     \<lparr>m_id = ''staff-X'', m_children = [],
      m_cachedDrawingY = - 2147483647, hasFacs = False, m_n = 1, m_visible = BOOLEAN_NONE,
      m_yAbs = 500, m_drawingStaffSize = 100, m_drawingLines = 5,
      m_drawingNotationType = NOTATIONTYPE_NONE,
      m_staffAlignment = None, m_timeSpanningElements = [],
      m_drawingStaffDef = None, m_drawingTuning = None,
      m_ledgerLinesAbove = [], m_ledgerLinesBelow = [],
      m_ledgerLinesAboveCue = [], m_ledgerLinesBelowCue = []\<rparr>"

definition example_as_int :: "string \<Rightarrow> int" where
  "example_as_int t = fold (\<lambda>c n. 10 * n + (int (of_char c) - 48)) t 0"

definition example_section :: xml_node where
  "example_section =
     Element ''MensuralMusic''
       [Element ''NumVoices'' [PCData ''3''],
        Element ''Voice'' [Element ''VoiceNum'' [PCData ''3''], Element ''EventList'' []],
        Element ''Voice'' [Element ''VoiceNum'' [PCData ''1''], Element ''EventList'' []]]"

definition example_section_two_numbers :: xml_node where
  "example_section_two_numbers =
     Element ''MensuralMusic''
       [Element ''Voice''
          [Element ''VoiceNum'' [PCData ''2''], Element ''VoiceNum'' [PCData ''1''],
           Element ''EventList'' []]]"

section \<open>Properties of the ledger-line dash list\<close>

lemma overlaps_int: "overlaps p n e \<longleftrightarrow> 2 * fst n + 3 * e < 2 * snd p"
  unfolding overlaps_def
proof -
  have "(real_of_int (fst n) + 1.5 * real_of_int e < real_of_int (snd p))
        = (real_of_int (2 * fst n + 3 * e) < real_of_int (2 * snd p))"
    by (simp add: field_simps)
  also have "\<dots> = (2 * fst n + 3 * e < 2 * snd p)"
    by (simp only: of_int_less_iff)
  finally show "(real_of_int (fst n) + 1.5 * real_of_int e < real_of_int (snd p)) = (2 * fst n + 3 * e < 2 * snd p)" .
qed

lemma spec_test_overlaps:
  "(real_of_int (snd p) - real_of_int (fst n) > 1.5 * real_of_int e) = overlaps p n e"
  by (auto simp: overlaps_def)

lemma spec_sweep_overlaps:
  "spec_sweep e (p # n # rest) =
     (if overlaps p n e then spec_sweep e ((fst p, max (snd p) (snd n)) # rest)
      else p # spec_sweep e (n # rest))"
  by (simp only: spec_sweep.simps spec_test_overlaps)

lemma within_threshold_overlaps:
  "within_threshold e (p # n # rest) = (\<not> overlaps p n e \<and> within_threshold e (n # rest))"
  by (simp only: within_threshold.simps spec_test_overlaps)

lemma list_insert_find_position:
  "list_insert ds (find_position ds left) (left, right) = spec_insert_sorted (left, right) ds"
  by (induction ds) (auto simp: list_insert_def spec_insert_sorted_def)

lemma merge_loop_sweep_aux:
  "iter = Suc previous \<Longrightarrow> previous < length dashes \<Longrightarrow>
   merge_loop e dashes previous iter = take previous dashes @ spec_sweep e (drop previous dashes)"
proof (induction e dashes previous iter rule: merge_loop.induct)
  case (1 e dashes previous iter)
  show ?case
  proof (cases "iter < length dashes")
    case False
    with 1(3,4) have "drop previous dashes = [dashes ! previous]"
      by (metis Cons_nth_drop_Suc drop_all not_less)
    then have "dashes = take previous dashes @ [dashes ! previous]"
      by (metis append_take_drop_id)
    with False \<open>drop previous dashes = [dashes ! previous]\<close> show ?thesis
      by (subst merge_loop.simps) simp
  next
    case True
    then have dr: "drop previous dashes = dashes ! previous # dashes ! iter # drop (Suc iter) dashes"
      using 1(3,4) by (simp add: Cons_nth_drop_Suc)
    show ?thesis
    proof (cases "overlaps (dashes ! previous) (dashes ! iter) e")
      case ov: True
      let ?m = "(fst (dashes ! previous), max (snd (dashes ! iter)) (snd (dashes ! previous)))"
      let ?ds = "list_erase (dashes[previous := ?m]) iter"
      have len: "previous < length ?ds" using True 1(3,4) by (simp add: list_erase_def)
      have tk: "take previous ?ds = take previous dashes"
        using True 1(3,4) by (simp add: list_erase_def)
      have dp: "drop previous ?ds = ?m # drop (Suc iter) dashes"
        using True 1(3,4) by (simp add: list_erase_def drop_Cons' Cons_nth_drop_Suc[symmetric] drop_update_swap upd_conv_take_nth_drop)
      have "merge_loop e dashes previous iter = merge_loop e ?ds previous iter"
        using True ov by (subst merge_loop.simps) simp
      also have "\<dots> = take previous ?ds @ spec_sweep e (drop previous ?ds)"
        using 1(1)[OF True ov 1(3) len] .
      also have "\<dots> = take previous dashes @ spec_sweep e (drop previous dashes)"
        using ov by (simp add: tk dp dr spec_sweep_overlaps max.commute del: spec_sweep.simps(1))
      finally show ?thesis .
    next
      case nov: False
      have "merge_loop e dashes previous iter = merge_loop e dashes iter (Suc iter)"
        using True nov by (subst merge_loop.simps) simp
      also have "\<dots> = take iter dashes @ spec_sweep e (drop iter dashes)"
        using 1(2)[OF True nov refl True] .
      also have "\<dots> = take previous dashes @ spec_sweep e (drop previous dashes)"
      proof -
        have t: "take iter dashes = take previous dashes @ [dashes ! previous]"
          using 1(3,4) by (simp add: take_Suc_conv_app_nth)
        have d: "drop iter dashes = dashes ! iter # drop (Suc iter) dashes"
          using True by (simp add: Cons_nth_drop_Suc)
        show ?thesis
          unfolding t dr spec_sweep_overlaps[of e "dashes ! previous"] using nov d by simp
      qed
      finally show ?thesis .
    qed
  qed
qed


lemma merge_loop_sweep:
  "dashes \<noteq> [] \<Longrightarrow> merge_loop e dashes 0 1 = spec_sweep e dashes"
  using merge_loop_sweep_aux[of 1 0 dashes e] by simp

lemma AddDash_refines:
  "left < right \<Longrightarrow>
   AddDash dashes left right e = Some (spec_sweep e (spec_insert_sorted (left, right) dashes))"
proof -
  assume lr: "left < right"
  have ne: "list_insert dashes (find_position dashes left) (left, right) \<noteq> []"
    by (simp add: list_insert_def)
  show ?thesis
    using lr merge_loop_sweep[OF ne, of e]
    by (simp add: AddDash_def list_insert_find_position)
qed

lemma spec_insert_sorted_Cons:
  "spec_insert_sorted d (x # xs) =
     (if fst x \<le> fst d then x # spec_insert_sorted d xs else d # x # xs)"
  by (simp add: spec_insert_sorted_def)

lemma spec_insert_sorted_Nil: "spec_insert_sorted d [] = [d]"
  by (simp add: spec_insert_sorted_def)

lemma set_spec_insert_sorted: "set (spec_insert_sorted d ds) = insert d (set ds)"
  by (induction ds) (auto simp: spec_insert_sorted_Cons spec_insert_sorted_Nil)

lemma sorted_spec_insert_sorted:
  "sorted (map fst ds) \<Longrightarrow> sorted (map fst (spec_insert_sorted d ds))"
proof (induction ds)
  case Nil
  show ?case by (simp add: spec_insert_sorted_def)
next
  case (Cons x xs)
  show ?case
  proof (cases "fst x \<le> fst d")
    case True
    with Cons show ?thesis
      by (auto simp: spec_insert_sorted_Cons set_spec_insert_sorted)
  next
    case False
    with Cons.prems show ?thesis
      by (auto simp: spec_insert_sorted_Cons)
  qed
qed

lemma spec_sweep_induct [case_names pair nil single]:
  assumes "\<And>e p n rest.
             (overlaps p n e \<Longrightarrow> P e ((fst p, max (snd p) (snd n)) # rest)) \<Longrightarrow>
             (\<not> overlaps p n e \<Longrightarrow> P e (n # rest)) \<Longrightarrow> P e (p # n # rest)"
    and "\<And>e. P e []" and "\<And>e v. P e [v]"
  shows "P e ds"
proof (induction e ds rule: spec_sweep.induct)
  case (1 e p n rest)
  from "1.IH"[unfolded spec_test_overlaps] show ?case by (rule assms(1))
qed (rule assms)+

lemma spec_sweep_hd:
  "ds \<noteq> [] \<Longrightarrow> \<exists>r tl. spec_sweep e ds = (fst (hd ds), r) # tl"
proof (induction e ds rule: spec_sweep_induct)
  case (pair e p n rest)
  show ?case
  proof (cases "overlaps p n e")
    case True
    with pair.IH(1) show ?thesis
      by (simp add: spec_sweep_overlaps del: spec_sweep.simps(1))
  next
    case False
    then show ?thesis
      by (cases p) (simp add: spec_sweep_overlaps del: spec_sweep.simps(1))
  qed
next
  case (single e v)
  show ?case by (cases v) simp
qed simp

lemma spec_sweep_head:
  "\<exists>r tl. spec_sweep e (n # rest) = (fst n, r) # tl"
  using spec_sweep_hd[of "n # rest" e] by simp

lemma fst_set_spec_sweep: "fst ` set (spec_sweep e ds) \<subseteq> fst ` set ds"
proof (induction e ds rule: spec_sweep_induct)
  case (pair e p n rest)
  then show ?case
    by (cases "overlaps p n e") (auto simp: spec_sweep_overlaps simp del: spec_sweep.simps(1))
qed simp_all

lemma sorted_spec_sweep:
  "sorted (map fst ds) \<Longrightarrow> sorted (map fst (spec_sweep e ds))"
proof (induction e ds rule: spec_sweep_induct)
  case (pair e p n rest)
  show ?case
  proof (cases "overlaps p n e")
    case True
    from pair.prems have "sorted (map fst ((fst p, max (snd p) (snd n)) # rest))" by auto
    with True pair.IH(1) show ?thesis
      by (simp add: spec_sweep_overlaps del: spec_sweep.simps(1))
  next
    case False
    from pair.prems have s: "sorted (map fst (n # rest))" and le: "\<forall>y \<in> fst ` set (n # rest). fst p \<le> y"
      by auto
    from False pair.IH(2) s have "sorted (map fst (spec_sweep e (n # rest)))"
      by simp
    moreover from le fst_set_spec_sweep[of e "n # rest"]
    have "\<forall>y \<in> fst ` set (spec_sweep e (n # rest)). fst p \<le> y" by blast
    ultimately show ?thesis using False
      by (simp add: spec_sweep_overlaps del: spec_sweep.simps(1))
  qed
qed simp_all

lemma within_threshold_spec_sweep: "within_threshold e (spec_sweep e ds)"
proof (induction e ds rule: spec_sweep_induct)
  case (pair e p n rest)
  show ?case
  proof (cases "overlaps p n e")
    case True
    with pair.IH(1) show ?thesis
      by (simp add: spec_sweep_overlaps del: spec_sweep.simps(1))
  next
    case False
    obtain r tl where h: "spec_sweep e (n # rest) = (fst n, r) # tl"
      using spec_sweep_head by blast
    from False pair.IH(2) have "within_threshold e (spec_sweep e (n # rest))"
      by simp
    with False h have "within_threshold e (p # spec_sweep e (n # rest))"
      by (simp add: within_threshold_overlaps overlaps_def del: within_threshold.simps(1))
    with False show ?thesis
      by (simp add: spec_sweep_overlaps del: spec_sweep.simps(1) within_threshold.simps(1))
  qed
qed simp_all

lemma AddDash_invariant:
  assumes "left < right"
  shows "\<exists>dashes'. AddDash dashes left right e = Some dashes'
           \<and> within_threshold e dashes'
           \<and> (sorted (map fst dashes) \<longrightarrow> sorted (map fst dashes'))"
  using assms
  by (simp add: AddDash_refines sorted_spec_sweep sorted_spec_insert_sorted
        within_threshold_spec_sweep)

lemma AddDashes_invariant:
  "\<forall>(l, r, e) \<in> set calls. l < r \<Longrightarrow> calls \<noteq> [] \<Longrightarrow>
   \<exists>dashes'. AddDashes dashes calls = Some dashes'
      \<and> within_threshold (snd (snd (last calls))) dashes'
      \<and> (sorted (map fst dashes) \<longrightarrow> sorted (map fst dashes'))"
proof (induction calls arbitrary: dashes)
  case Nil
  then show ?case by simp
next
  case (Cons c calls)
  obtain l r e where c: "c = (l, r, e)" by (cases c) auto
  with Cons.prems have lr: "l < r" by simp
  from AddDash_invariant[OF lr, of dashes e]
  obtain d1 where d1: "AddDash dashes l r e = Some d1" "within_threshold e d1"
    "sorted (map fst dashes) \<longrightarrow> sorted (map fst d1)"
    by blast
  show ?case
  proof (cases "calls = []")
    case True
    with c d1 show ?thesis by simp
  next
    case False
    from Cons.prems(1) have "\<forall>(l, r, e) \<in> set calls. l < r" by simp
    from Cons.IH[OF this False, of d1]
    obtain d2 where d2: "AddDashes d1 calls = Some d2"
      "within_threshold (snd (snd (last calls))) d2"
      "sorted (map fst d1) \<longrightarrow> sorted (map fst d2)"
      by blast
    with c d1 False show ?thesis by simp
  qed
qed

text \<open>
  Claim C1. For every dash list and every call \<open>AddDash(left, right, extension)\<close> with
  \<open>left < right\<close>, the result is the list with the new dash inserted at the position
  sorted by left edge (which keeps a sorted list sorted), swept once so that adjacent
  dashes are merged exactly when the earlier right edge exceeds the later left edge by
  more than 1.5 extensions, the merged dash taking the maximum of the right edges. With
  extension 2, adding (0,10) and (8,20) to an empty line leaves two dashes, and adding
  (0,10) and (5,20) leaves the single dash (0,20).
\<close>

theorem AddDash_inserts_sorted_then_merges:
  assumes "left < right"
  shows "AddDash dashes left right extension =
           Some (spec_sweep extension (spec_insert_sorted (left, right) dashes))
       \<and> (sorted (map fst dashes) \<longrightarrow>
            sorted (map fst (spec_insert_sorted (left, right) dashes)))
       \<and> AddDashes [] [(0, 10, 2), (8, 20, 2)] = Some [(0, 10), (8, 20)]
       \<and> AddDashes [] [(0, 10, 2), (5, 20, 2)] = Some [(0, 20)]"
proof -
  have a: "AddDash [] 0 10 2 = Some [(0, 10)]"
    by (simp add: AddDash_refines spec_insert_sorted_def)
  have b: "AddDash [(0, 10)] 8 20 2 = Some [(0, 10), (8, 20)]"
    by (simp add: AddDash_refines spec_insert_sorted_def)
  have c: "AddDash [(0, 10)] 5 20 2 = Some [(0, 20)]"
    by (simp add: AddDash_refines spec_insert_sorted_def)
  show ?thesis
    using assms by (simp add: AddDash_refines sorted_spec_insert_sorted a b c)
qed

theorem AddDash_inserts_sorted_then_merges_witness:
  "(3::int) < 9 \<and> sorted (map fst [(0::int, 10::int), (8, 20), (30, 40)])
   \<and> AddDash [(0, 10), (8, 20), (30, 40)] 3 9 2 = Some [(0, 10), (8, 20), (30, 40)]
   \<and> sorted (map fst (spec_insert_sorted (3, 9) [(0::int, 10::int), (8, 20), (30, 40)]))"
  using AddDash_inserts_sorted_then_merges[of 3 9 "[(0, 10), (8, 20), (30, 40)]" 2]
  by (simp add: spec_insert_sorted_def)

text \<open>
  Claim C7. For every dash list and every sequence of \<open>AddDash\<close> calls with
  \<open>left < right\<close>, each call succeeds and leaves no adjacent pair in which the earlier
  right edge exceeds the later left edge by more than 1.5 times the extension of that
  call; and when the list was sorted by left edge at the start, as the empty list of a
  new ledger line is, it is sorted by left edge after each call.
\<close>

theorem AddDashes_sorted_within_threshold:
  assumes "\<forall>(l, r, e) \<in> set calls. l < r"
    and "0 < k" and "k \<le> length calls"
  shows "\<exists>dashes'. AddDashes dashes (take k calls) = Some dashes'
           \<and> within_threshold (snd (snd (calls ! (k - 1)))) dashes'
           \<and> (sorted (map fst dashes) \<longrightarrow> sorted (map fst dashes'))"
proof -
  have "\<forall>(l, r, e) \<in> set (take k calls). l < r"
    using assms(1) by (meson in_set_takeD)
  moreover have "take k calls \<noteq> []" using assms(2,3) by auto
  moreover have "last (take k calls) = calls ! (k - 1)"
  proof -
    have "length (take k calls) = k" using assms(3) by simp
    moreover have "take k calls \<noteq> []" using assms(2,3) by auto
    ultimately have "last (take k calls) = take k calls ! (k - 1)"
      by (simp add: last_conv_nth)
    also have "\<dots> = calls ! (k - 1)" using assms(2) by simp
    finally show ?thesis .
  qed
  ultimately show ?thesis
    using AddDashes_invariant[of "take k calls" dashes] by simp
qed

theorem AddDashes_sorted_within_threshold_witness:
  "AddDashes [] (take 3 [(0, 10, 2), (8, 20, 2), (4, 12, 2), (50, 60, 1)]) = Some [(0, 20)]
   \<and> sorted (map fst ([] :: dash list))
   \<and> sorted (map fst [(0::int, 20::int)]) \<and> within_threshold 2 [(0, 20)]"
  using AddDashes_sorted_within_threshold[of "[(0, 10, 2), (8, 20, 2), (4, 12, 2), (50, 60, 1)]" 3 "[]"]
  by (simp add: AddDash_refines spec_insert_sorted_def)

section \<open>Properties of CalcStem\<close>

lemma smod_2_odd: "((n::int) smod 2 \<noteq> 0) = odd n"
proof -
  have "\<bar>n\<bar> mod 2 = n mod 2" by presburger
  then have "n smod 2 = sgn n * (n mod 2)"
    by (simp add: signed_modulo_int_def)
  moreover have "odd n \<Longrightarrow> sgn n \<noteq> 0" by (auto simp: sgn_if)
  ultimately show ?thesis
    by (auto simp: odd_iff_mod_2_eq_one)
qed

lemma set_difference_subset: "set (set_difference xs ys) \<subseteq> set xs"
  by (induction xs ys rule: set_difference.induct) auto

lemma set_difference_keeps:
  "x \<in> set xs \<Longrightarrow> x \<notin> set ys \<Longrightarrow> x \<in> set (set_difference xs ys)"
  by (induction xs ys rule: set_difference.induct) auto

lemma set_difference_sorted:
  "sorted_wrt (<) xs \<Longrightarrow> sorted_wrt (<) ys \<Longrightarrow> set (set_difference xs ys) = set xs - set ys"
proof (induction xs ys rule: set_difference.induct)
  case (1 ys)
  show ?case by simp
next
  case (2 x xs)
  show ?case by simp
next
  case (3 x xs y ys)
  from "3.prems" have sx: "sorted_wrt (<) xs" and lx: "\<forall>z \<in> set xs. x < z"
    and sy: "sorted_wrt (<) ys" and ly: "\<forall>z \<in> set ys. y < z"
    by simp_all
  show ?case
  proof (cases "x < y")
    case True
    with ly have nx: "x \<notin> set (y # ys)" by auto
    from "3.IH"(1)[OF True sx "3.prems"(2)]
    have "set (set_difference xs (y # ys)) = set xs - set (y # ys)" .
    with True nx show ?thesis by auto
  next
    case nlt: False
    show ?thesis
    proof (cases "y < x")
      case True
      with lx have ny: "y \<notin> set (x # xs)" by auto
      from "3.IH"(2)[OF nlt True "3.prems"(1) sy]
      have "set (set_difference (x # xs) ys) = set (x # xs) - set ys" .
      with nlt True ny show ?thesis by auto
    next
      case False
      with nlt have eq: "x = y" by simp
      from lx have nx: "x \<notin> set xs" by auto
      from "3.IH"(3)[OF nlt False sx sy]
      have "set (set_difference xs ys) = set xs - set ys" .
      with eq nx show ?thesis by auto
    qed
  qed
qed

lemma fold_stem:
  "fold (\<lambda>object store.
           SetDrawingStemDir store object
             (if layer_n (store object) smod 2 \<noteq> 0
              then STEMDIRECTION_up else STEMDIRECTION_down)) ps store l =
     (if l \<in> set ps
      then (store l)\<lparr>m_drawingStemDir :=
             (if odd (layer_n (store l)) then STEMDIRECTION_up else STEMDIRECTION_down)\<rparr>
      else store l)"
  by (induction ps arbitrary: store) (auto simp: SetDrawingStemDir_def smod_2_odd)

lemma CalcStem_many:
  assumes "2 \<le> length layers"
    and "\<not> (length layers < 3 \<and> (\<exists>l \<in> set layers. isEmpty (store l)))"
  shows "CalcStem store layers l =
     (if l \<in> set (considered_layers store layers)
      then (store l)\<lparr>m_drawingStemDir :=
             (if odd (layer_n (store l)) then STEMDIRECTION_up else STEMDIRECTION_down)\<rparr>
      else store l)"
proof -
  obtain a rest where l: "layers = a # rest" using assms(1) by (cases layers) auto
  have n2: "(length (a # rest) < 2) = False" using assms(1) l by (cases rest) auto
  have "(0 < length (filter (\<lambda>l. isEmpty (store l)) layers)) = (\<exists>l \<in> set layers. isEmpty (store l))"
    by (auto simp: filter_empty_conv)
  with assms(2)
  have amb: "(length (a # rest) < 3 \<and> 0 < length (filter (\<lambda>l. isEmpty (store l)) (a # rest))) = False"
    unfolding l by blast
  have "CalcStem store layers =
      fold (\<lambda>object store.
           SetDrawingStemDir store object
             (if layer_n (store object) smod 2 \<noteq> 0
              then STEMDIRECTION_up else STEMDIRECTION_down)) (considered_layers store layers) store"
    unfolding CalcStem_def l by (simp only: list.case n2 amb if_False)
  then show ?thesis by (simp only: fold_stem)
qed

lemma considered_layers_bounds:
  "{l \<in> set layers. \<not> isEmpty (store l)} \<subseteq> set (considered_layers store layers)
   \<and> set (considered_layers store layers) \<subseteq> set layers"
  using set_difference_subset[of layers "filter (\<lambda>l. isEmpty (store l)) layers"]
    set_difference_keeps[of _ layers "filter (\<lambda>l. isEmpty (store l)) layers"]
  by (auto simp: considered_layers_def Let_def filter_empty_conv)

lemma considered_layers_sorted:
  assumes "sorted_wrt (<) layers"
  shows "set (considered_layers store layers) = {l \<in> set layers. \<not> isEmpty (store l)}"
proof -
  have "sorted_wrt (<) (filter (\<lambda>l. isEmpty (store l)) layers)"
    using assms by (rule sorted_wrt_filter)
  from set_difference_sorted[OF assms this] show ?thesis
    by (auto simp: considered_layers_def Let_def filter_empty_conv)
qed

lemma considered_two:
  "\<not> isEmpty (store a) \<Longrightarrow> \<not> isEmpty (store b) \<Longrightarrow> considered_layers store [a, b] = [a, b]"
  by (simp add: considered_layers_def)

lemma considered_three:
  "isEmpty (store a) \<Longrightarrow> \<not> isEmpty (store b) \<Longrightarrow> \<not> isEmpty (store c) \<Longrightarrow>
   considered_layers store [a, b, c] = [b, c]"
  by (simp add: considered_layers_def)



text \<open>
  Claim C8. On a staff with at least two layers that is not in the case the code leaves
  alone (two layers of which one is empty), \<open>CalcStem\<close> gives every layer it keeps
  under consideration the direction of its own number, up for odd and down for even,
  and touches no other layer. Every layer that is not empty is kept, whatever the
  addresses; when the addresses follow document order the kept layers are exactly those
  that are not empty. Layers {1, 2}, both with content: layer 1 up, layer 2 down.
  Layers {1: empty, 2, 3}: layer 2 down, layer 3 up, layer 1 as it was.
\<close>

theorem CalcStem_parity:
  assumes "2 \<le> length layers"
    and "\<not> (length layers < 3 \<and> (\<exists>l \<in> set layers. isEmpty (store l)))"
  shows "(\<forall>l \<in> set (considered_layers store layers).
            CalcStem store layers l = (store l)\<lparr>m_drawingStemDir :=
               (if odd (layer_n (store l)) then STEMDIRECTION_up else STEMDIRECTION_down)\<rparr>)
       \<and> (\<forall>l. l \<notin> set (considered_layers store layers) \<longrightarrow> CalcStem store layers l = store l)
       \<and> {l \<in> set layers. \<not> isEmpty (store l)} \<subseteq> set (considered_layers store layers)
       \<and> set (considered_layers store layers) \<subseteq> set layers
       \<and> (sorted_wrt (<) layers \<longrightarrow>
            set (considered_layers store layers) = {l \<in> set layers. \<not> isEmpty (store l)})
       \<and> (a \<noteq> b \<and> \<not> isEmpty (st a) \<and> \<not> isEmpty (st b)
            \<and> layer_n (st a) = 1 \<and> layer_n (st b) = 2 \<longrightarrow>
            m_drawingStemDir (CalcStem st [a, b] a) = STEMDIRECTION_up
            \<and> m_drawingStemDir (CalcStem st [a, b] b) = STEMDIRECTION_down)
       \<and> (distinct [a, b, c] \<and> isEmpty (st a) \<and> \<not> isEmpty (st b) \<and> \<not> isEmpty (st c)
            \<and> layer_n (st a) = 1 \<and> layer_n (st b) = 2 \<and> layer_n (st c) = 3 \<longrightarrow>
            CalcStem st [a, b, c] a = st a
            \<and> m_drawingStemDir (CalcStem st [a, b, c] b) = STEMDIRECTION_down
            \<and> m_drawingStemDir (CalcStem st [a, b, c] c) = STEMDIRECTION_up)"
proof -
  note many = CalcStem_many[OF assms]
  have c1: "\<forall>l \<in> set (considered_layers store layers).
            CalcStem store layers l = (store l)\<lparr>m_drawingStemDir :=
               (if odd (layer_n (store l)) then STEMDIRECTION_up else STEMDIRECTION_down)\<rparr>"
    by (simp add: many)
  have c2: "\<forall>l. l \<notin> set (considered_layers store layers) \<longrightarrow> CalcStem store layers l = store l"
    by (simp add: many)
  have c3: "{l \<in> set layers. \<not> isEmpty (store l)} \<subseteq> set (considered_layers store layers)"
    and c4: "set (considered_layers store layers) \<subseteq> set layers"
    using considered_layers_bounds[of layers store] by simp_all
  have c5: "sorted_wrt (<) layers \<longrightarrow>
            set (considered_layers store layers) = {l \<in> set layers. \<not> isEmpty (store l)}"
    using considered_layers_sorted[of layers store] by simp
  have c6: "a \<noteq> b \<and> \<not> isEmpty (st a) \<and> \<not> isEmpty (st b)
            \<and> layer_n (st a) = 1 \<and> layer_n (st b) = 2 \<longrightarrow>
            m_drawingStemDir (CalcStem st [a, b] a) = STEMDIRECTION_up
            \<and> m_drawingStemDir (CalcStem st [a, b] b) = STEMDIRECTION_down"
  proof (intro impI, elim conjE)
    assume h: "a \<noteq> b" "\<not> isEmpty (st a)" "\<not> isEmpty (st b)" "layer_n (st a) = 1" "layer_n (st b) = 2"
    have m: "\<And>l. CalcStem st [a, b] l =
       (if l \<in> set (considered_layers st [a, b])
        then (st l)\<lparr>m_drawingStemDir :=
             (if odd (layer_n (st l)) then STEMDIRECTION_up else STEMDIRECTION_down)\<rparr>
        else st l)"
      using h by (intro CalcStem_many) simp_all
    show "m_drawingStemDir (CalcStem st [a, b] a) = STEMDIRECTION_up
            \<and> m_drawingStemDir (CalcStem st [a, b] b) = STEMDIRECTION_down"
      using h by (simp add: m considered_two)
  qed
  have c7: "distinct [a, b, c] \<and> isEmpty (st a) \<and> \<not> isEmpty (st b) \<and> \<not> isEmpty (st c)
            \<and> layer_n (st a) = 1 \<and> layer_n (st b) = 2 \<and> layer_n (st c) = 3 \<longrightarrow>
            CalcStem st [a, b, c] a = st a
            \<and> m_drawingStemDir (CalcStem st [a, b, c] b) = STEMDIRECTION_down
            \<and> m_drawingStemDir (CalcStem st [a, b, c] c) = STEMDIRECTION_up"
  proof (intro impI, elim conjE)
    assume h: "distinct [a, b, c]" "isEmpty (st a)" "\<not> isEmpty (st b)" "\<not> isEmpty (st c)"
       "layer_n (st a) = 1" "layer_n (st b) = 2" "layer_n (st c) = 3"
    have m: "\<And>l. CalcStem st [a, b, c] l =
       (if l \<in> set (considered_layers st [a, b, c])
        then (st l)\<lparr>m_drawingStemDir :=
             (if odd (layer_n (st l)) then STEMDIRECTION_up else STEMDIRECTION_down)\<rparr>
        else st l)"
      by (intro CalcStem_many) simp_all
    show "CalcStem st [a, b, c] a = st a
            \<and> m_drawingStemDir (CalcStem st [a, b, c] b) = STEMDIRECTION_down
            \<and> m_drawingStemDir (CalcStem st [a, b, c] c) = STEMDIRECTION_up"
      using h by (simp add: m considered_three)
  qed
  show ?thesis
    using c1 c2 c3 c4 c5 c6 c7 by (intro conjI) assumption+
qed

theorem CalcStem_parity_witness:
  "2 \<le> length [10, 20, 31, 41 :: ptr]
   \<and> \<not> (length [10, 20, 31, 41 :: ptr] < 3
        \<and> (\<exists>l \<in> set [10, 20, 31, 41]. isEmpty (stem_example l)))
   \<and> sorted_wrt (<) [10, 20, 31, 41 :: ptr]
   \<and> considered_layers stem_example [10, 20, 31, 41] = [31, 41]
   \<and> m_drawingStemDir (CalcStem stem_example [10, 20, 31, 41] 31) = STEMDIRECTION_up
   \<and> m_drawingStemDir (CalcStem stem_example [10, 20, 31, 41] 41) = STEMDIRECTION_down
   \<and> CalcStem stem_example [10, 20, 31, 41] 10 = stem_example 10
   \<and> CalcStem stem_example [10, 20, 31, 41] 20 = stem_example 20
   \<and> m_drawingStemDir (CalcStem stem_example [11, 21] 11) = STEMDIRECTION_up
   \<and> m_drawingStemDir (CalcStem stem_example [11, 21] 21) = STEMDIRECTION_down
   \<and> CalcStem stem_example [10, 21, 31] 10 = stem_example 10
   \<and> m_drawingStemDir (CalcStem stem_example [10, 21, 31] 21) = STEMDIRECTION_down
   \<and> m_drawingStemDir (CalcStem stem_example [10, 21, 31] 31) = STEMDIRECTION_up"
proof -
  have cl: "considered_layers stem_example [10, 20, 31, 41] = [31, 41]"
    by (simp add: considered_layers_def stem_example_def)
  have n: "layer_n (stem_example 10) = 1" "layer_n (stem_example 11) = 1"
    "layer_n (stem_example 21) = 2" "layer_n (stem_example 31) = 3"
    "layer_n (stem_example 41) = 4"
    "isEmpty (stem_example 10)" "isEmpty (stem_example 20)" "\<not> isEmpty (stem_example 11)"
    "\<not> isEmpty (stem_example 21)" "\<not> isEmpty (stem_example 31)" "\<not> isEmpty (stem_example 41)"
    by (simp_all add: stem_example_def)
  have h1: "2 \<le> length [10, 20, 31, 41 :: ptr]" by simp
  have h2: "\<not> (length [10, 20, 31, 41 :: ptr] < 3
        \<and> (\<exists>l \<in> set [10, 20, 31, 41]. isEmpty (stem_example l)))" by simp
  note T = CalcStem_parity[OF h1 h2, where a = 11 and b = 21 and st = stem_example and c = 0, unfolded cl]
  note g = T[THEN conjunct1]
  note u = T[THEN conjunct2, THEN conjunct1]
  note c6 = T[THEN conjunct2, THEN conjunct2, THEN conjunct2, THEN conjunct2, THEN conjunct2,
              THEN conjunct1]
  note c7 = CalcStem_parity[OF h1 h2, where a = 10 and b = 21 and c = 31 and st = stem_example, THEN conjunct2, THEN conjunct2,
               THEN conjunct2, THEN conjunct2, THEN conjunct2, THEN conjunct2]
  from c6 n have two: "m_drawingStemDir (CalcStem stem_example [11, 21] 11) = STEMDIRECTION_up
   \<and> m_drawingStemDir (CalcStem stem_example [11, 21] 21) = STEMDIRECTION_down"
    by simp
  from c7 n have three: "CalcStem stem_example [10, 21, 31] 10 = stem_example 10
   \<and> m_drawingStemDir (CalcStem stem_example [10, 21, 31] 21) = STEMDIRECTION_down
   \<and> m_drawingStemDir (CalcStem stem_example [10, 21, 31] 31) = STEMDIRECTION_up"
    by simp
  from g[THEN bspec, of 31] g[THEN bspec, of 41] n
  have g': "m_drawingStemDir (CalcStem stem_example [10, 20, 31, 41] 31) = STEMDIRECTION_up"
    "m_drawingStemDir (CalcStem stem_example [10, 20, 31, 41] 41) = STEMDIRECTION_down"
    by simp_all
  from u[THEN spec, of 10] u[THEN spec, of 20]
  have u': "CalcStem stem_example [10, 20, 31, 41] 10 = stem_example 10"
    "CalcStem stem_example [10, 20, 31, 41] 20 = stem_example 20"
    by simp_all
  show ?thesis
    using h1 h2 cl g' u' two three by simp
qed

text \<open>
  Claim C2. Two layers of which one is empty are left as they are. With three layers of
  which two are empty, removing the empty ones leaves a single layer with content; the
  directions are then not left unset: the layer with content, number 3, is given the
  direction up.
\<close>

theorem CalcStem_one_content_layer_of_three:
  "CalcStem stem_example [10, 21] = stem_example
   \<and> filter (\<lambda>l. \<not> isEmpty (stem_example l)) [10, 20, 31] = [31]
   \<and> m_drawingStemDir (stem_example 31) = STEMDIRECTION_NONE
   \<and> m_drawingStemDir (CalcStem stem_example [10, 20, 31] 31) = STEMDIRECTION_up"
  by (simp add: CalcStem_def considered_layers_def stem_example_def SetDrawingStemDir_def
        signed_modulo_int_def)

section \<open>Properties of GetDrawingY and IsSupportedChild\<close>

lemma int32_in_range:
  "- 2147483648 \<le> k \<Longrightarrow> k \<le> 2147483647 \<Longrightarrow> int32 k = k"
  by (simp add: int32_def)

text \<open>
  Claim C6. \<open>GetDrawingY\<close> answers in this order: the facsimile Y when the staff has
  \<open>@facs\<close> and the document is of type \<open>Facs\<close>; else the absolute Y when it is
  set; else 0 when no staff alignment is assigned; else the cached value when there is
  one; else the \<open>int\<close> sum of the Y of the system and the relative Y of the alignment,
  which is their sum whenever that sum is inside the range of \<open>int\<close>, and which it
  stores in the cache, so that the next call returns the same value whatever the system
  then says.
\<close>

theorem GetDrawingY_priority:
  "(hasFacs this \<and> doc = Some Facs \<longrightarrow>
      GetDrawingY unset doc facsimileY system this = Inr (facsimileY, this))
   \<and> ((\<not> hasFacs this \<or> (doc \<noteq> None \<and> doc \<noteq> Some Facs)) \<longrightarrow>
        (m_yAbs this \<noteq> unset \<longrightarrow>
           GetDrawingY unset doc facsimileY system this = Inr (m_yAbs this, this))
      \<and> (m_yAbs this = unset \<and> m_staffAlignment this = None \<longrightarrow>
           GetDrawingY unset doc facsimileY system this = Inr (0, this))
      \<and> (m_yAbs this = unset \<and> m_staffAlignment this = Some alignment
           \<and> m_cachedDrawingY this \<noteq> unset \<longrightarrow>
           GetDrawingY unset doc facsimileY system this = Inr (m_cachedDrawingY this, this))
      \<and> (m_yAbs this = unset \<and> m_staffAlignment this = Some alignment
           \<and> m_cachedDrawingY this = unset \<and> system = Some systemY \<longrightarrow>
           GetDrawingY unset doc facsimileY system this
             = Inr (int32 (systemY + yRel alignment),
                    this\<lparr>m_cachedDrawingY := int32 (systemY + yRel alignment)\<rparr>)
           \<and> (- 2147483648 \<le> systemY + yRel alignment
                \<and> systemY + yRel alignment \<le> 2147483647 \<longrightarrow>
                GetDrawingY unset doc facsimileY system this
                  = Inr (systemY + yRel alignment,
                         this\<lparr>m_cachedDrawingY := systemY + yRel alignment\<rparr>))
           \<and> (int32 (systemY + yRel alignment) \<noteq> unset \<longrightarrow>
                GetDrawingY unset doc facsimileY system'
                    (this\<lparr>m_cachedDrawingY := int32 (systemY + yRel alignment)\<rparr>)
                  = Inr (int32 (systemY + yRel alignment),
                         this\<lparr>m_cachedDrawingY := int32 (systemY + yRel alignment)\<rparr>))))"
proof -
  have r: "- 2147483648 \<le> systemY + yRel alignment
           \<and> systemY + yRel alignment \<le> 2147483647 \<longrightarrow>
           int32 (systemY + yRel alignment) = systemY + yRel alignment"
    using int32_in_range[of "systemY + yRel alignment"] by simp
  show ?thesis
    using r by (auto simp: GetDrawingY_def)
qed

theorem GetDrawingY_priority_witness:
  "GetDrawingY example_unset (Some Facs) 77 (Some 2000) (example_staff\<lparr>hasFacs := True\<rparr>)
     = Inr (77, example_staff\<lparr>hasFacs := True\<rparr>)
   \<and> GetDrawingY example_unset (Some Raw) 77 (Some 2000) (example_staff\<lparr>hasFacs := True\<rparr>)
     = Inr (500, example_staff\<lparr>hasFacs := True\<rparr>)
   \<and> GetDrawingY example_unset (Some Raw) 77 (Some 2000)
        (example_staff\<lparr>m_yAbs := example_unset, m_staffAlignment := None\<rparr>)
     = Inr (0, example_staff\<lparr>m_yAbs := example_unset, m_staffAlignment := None\<rparr>)
   \<and> GetDrawingY example_unset (Some Raw) 77 (Some 2000)
        (example_staff\<lparr>m_yAbs := example_unset\<rparr>)
     = Inr (1200, example_staff\<lparr>m_yAbs := example_unset\<rparr>)
   \<and> - 2147483648 \<le> (2000::int) + - 300 \<and> (2000::int) + - 300 \<le> 2147483647
   \<and> GetDrawingY example_unset (Some Raw) 77 (Some 2000)
        (example_staff\<lparr>m_yAbs := example_unset, m_cachedDrawingY := example_unset\<rparr>)
     = Inr (1700, example_staff\<lparr>m_yAbs := example_unset, m_cachedDrawingY := 1700\<rparr>)
   \<and> GetDrawingY example_unset (Some Raw) 77 (Some 9999)
        (example_staff\<lparr>m_yAbs := example_unset, m_cachedDrawingY := 1700\<rparr>)
     = Inr (1700, example_staff\<lparr>m_yAbs := example_unset, m_cachedDrawingY := 1700\<rparr>)
   \<and> GetDrawingY example_unset (Some Raw) 77 (Some 2147483647)
        (example_staff\<lparr>m_yAbs := example_unset, m_cachedDrawingY := example_unset,
                        m_staffAlignment := Some \<lparr>yRel = 1\<rparr>\<rparr>)
     = Inr (- 2147483648,
            example_staff\<lparr>m_yAbs := example_unset, m_cachedDrawingY := - 2147483648,
                            m_staffAlignment := Some \<lparr>yRel = 1\<rparr>\<rparr>)"
proof -
  have e: "m_yAbs example_staff = 500" "hasFacs example_staff = False"
    "m_staffAlignment example_staff = Some \<lparr>yRel = - 300\<rparr>"
    "m_cachedDrawingY example_staff = 1200"
    by (simp_all add: example_staff_def)
  have i: "int32 1700 = 1700" "int32 2147483648 = - 2147483648"
    by (simp_all add: int32_def)
  show ?thesis
    using
      GetDrawingY_priority[of "example_staff\<lparr>hasFacs := True\<rparr>" "Some Facs" example_unset 77 "Some 2000"]
      GetDrawingY_priority[of "example_staff\<lparr>hasFacs := True\<rparr>" "Some Raw" example_unset 77 "Some 2000"]
      GetDrawingY_priority[of "example_staff\<lparr>m_yAbs := example_unset, m_staffAlignment := None\<rparr>"
         "Some Raw" example_unset 77 "Some 2000"]
      GetDrawingY_priority[of "example_staff\<lparr>m_yAbs := example_unset\<rparr>"
         "Some Raw" example_unset 77 "Some 2000" "\<lparr>yRel = - 300\<rparr>"]
      GetDrawingY_priority[of "example_staff\<lparr>m_yAbs := example_unset, m_cachedDrawingY := example_unset\<rparr>"
         "Some Raw" example_unset 77 "Some 2000" "\<lparr>yRel = - 300\<rparr>" 2000 "Some 9999"]
      GetDrawingY_priority[of "example_staff\<lparr>m_yAbs := example_unset, m_cachedDrawingY := example_unset,
                        m_staffAlignment := Some \<lparr>yRel = 1\<rparr>\<rparr>"
         "Some Raw" example_unset 77 "Some 2147483647" "\<lparr>yRel = 1\<rparr>" 2147483647 "Some 0"]
    by (simp add: e i example_unset_def)
qed

text \<open>
  Claim C9. For a child that is neither a layer nor an editorial element
  \<open>IsSupportedChild\<close> answers false and changes nothing, and adding it leaves the staff
  with its child list as it was and reports the rejection. A layer or an editorial
  element is accepted and appended.
\<close>

theorem IsSupportedChild_rejects_unsupported:
  "(classId child \<noteq> LAYER \<and> \<not> isEditorialElement child \<longrightarrow>
      IsSupportedChild this child = (False, child) \<and> AddChild this child = (False, this))
   \<and> (classId child = LAYER \<or> isEditorialElement child \<longrightarrow>
        fst (IsSupportedChild this child) \<and> fst (AddChild this child)
        \<and> m_children (snd (AddChild this child))
            = m_children this @ [snd (IsSupportedChild this child)]
        \<and> classId (snd (IsSupportedChild this child)) = classId child)"
  by (auto simp: IsSupportedChild_def AddChild_def)

theorem IsSupportedChild_rejects_unsupported_witness:
  "IsSupportedChild example_staff
      \<lparr>classId = NOTE, isEditorialElement = False, hasN = False, att_n = 0\<rparr>
     = (False, \<lparr>classId = NOTE, isEditorialElement = False, hasN = False, att_n = 0\<rparr>)
   \<and> AddChild example_staff
      \<lparr>classId = NOTE, isEditorialElement = False, hasN = False, att_n = 0\<rparr>
     = (False, example_staff)
   \<and> fst (AddChild example_staff \<lparr>classId = SIC, isEditorialElement = True, hasN = False, att_n = 0\<rparr>)
   \<and> m_children (snd (AddChild example_staff
         \<lparr>classId = LAYER, isEditorialElement = False, hasN = False, att_n = 0\<rparr>))
       = [\<lparr>classId = LAYER, isEditorialElement = False, hasN = True, att_n = 1\<rparr>,
          \<lparr>classId = LAYER, isEditorialElement = False, hasN = True, att_n = 2\<rparr>]"
  using
    IsSupportedChild_rejects_unsupported[of
      "\<lparr>classId = NOTE, isEditorialElement = False, hasN = False, att_n = 0\<rparr>" example_staff]
    IsSupportedChild_rejects_unsupported[of
      "\<lparr>classId = SIC, isEditorialElement = True, hasN = False, att_n = 0\<rparr>" example_staff]
    IsSupportedChild_rejects_unsupported[of
      "\<lparr>classId = LAYER, isEditorialElement = False, hasN = False, att_n = 0\<rparr>" example_staff]
  by (simp add: IsSupportedChild_def GetChildCount_def example_staff_def)

section \<open>Properties of PrepareStaffCurrentTimeSpanning and ConvertToCastOffMensural\<close>

lemma collect_time_spanning_filter:
  "collect_time_spanning G I (Some current) n xs elements =
     Inr (elements @ filter (\<lambda>x. G x \<noteq> Some current \<and> I x n) xs)"
  by (induction xs arbitrary: elements) simp_all

text \<open>
  What the loop does for a staff in measure \<open>current\<close>: it appends, in their order, the
  elements of the pass-wide list whose start measure is not the current measure and that
  are on the staff's number. When every element of the pass-wide list starts in the
  current measure or before it, these are the elements whose start measure precedes the
  current one.
\<close>

lemma PrepareStaffCurrentTimeSpanning_selects:
  "PrepareStaffCurrentTimeSpanning GetStartMeasure IsOnStaff (Some current) elements this
     = Inr (this\<lparr>m_timeSpanningElements :=
              m_timeSpanningElements this
              @ filter (\<lambda>x. GetStartMeasure x \<noteq> Some current \<and> IsOnStaff x (m_n this)) elements\<rparr>)
   \<and> ((\<forall>x \<in> set elements. \<exists>start. GetStartMeasure x = Some start \<and> start \<le> current) \<longrightarrow>
        filter (\<lambda>x. GetStartMeasure x \<noteq> Some current \<and> IsOnStaff x (m_n this)) elements
          = spec_time_spanning GetStartMeasure IsOnStaff current (m_n this) elements)"
proof -
  have "(\<forall>x \<in> set elements. \<exists>start. GetStartMeasure x = Some start \<and> start \<le> current) \<longrightarrow>
        filter (\<lambda>x. GetStartMeasure x \<noteq> Some current \<and> IsOnStaff x (m_n this)) elements
          = spec_time_spanning GetStartMeasure IsOnStaff current (m_n this) elements"
    unfolding spec_time_spanning_def
    by (intro impI filter_cong refl) (auto split: option.splits)
  then show ?thesis
    by (simp add: PrepareStaffCurrentTimeSpanning_def collect_time_spanning_filter)
qed

text \<open>
  Claim C5. The elements attached are to be exactly those whose start measure precedes
  the staff's current measure and that are on the staff's number, as the comment in the
  loop asks for (the staff is to be in a measure after the start). The test is an
  inequality of measures, so that an element on the staff that starts in measure 4 is
  attached to a staff of measure 3, where the selection of the claim is empty; an
  element that starts in measure 3 itself is not attached.
\<close>

theorem PrepareStaffCurrentTimeSpanning_later_start:
  "PrepareStaffCurrentTimeSpanning example_GetStartMeasure example_IsOnStaff (Some 3) [41]
       example_staff
     = Inr (example_staff\<lparr>m_timeSpanningElements := m_timeSpanningElements example_staff @ [41]\<rparr>)
   \<and> example_GetStartMeasure 41 = Some 4
   \<and> spec_time_spanning example_GetStartMeasure example_IsOnStaff 3 (m_n example_staff) [41] = []
   \<and> PrepareStaffCurrentTimeSpanning example_GetStartMeasure example_IsOnStaff (Some 3) [31]
       example_staff
     = Inr example_staff"
  by (simp add: PrepareStaffCurrentTimeSpanning_def spec_time_spanning_def
        example_GetStartMeasure_def example_IsOnStaff_def example_staff_def)

lemma length_le_foldr_max:
  "x \<in> set xs \<Longrightarrow> length x \<le> foldr max (map length xs) 0"
  by (induction xs) auto

lemma GenerateID_fresh: "GenerateID ids_in_use \<notin> set ids_in_use"
proof
  assume "GenerateID ids_in_use \<in> set ids_in_use"
  from length_le_foldr_max[OF this]
  show False by (simp add: GenerateID_def)
qed

lemma ConvertToCastOffMensural_result:
  "ConvertToCastOffMensural unset ids_in_use this params =
     (case m_targetMeasure params of
        None \<Rightarrow> Inl AssertionFailure
      | Some tm \<Rightarrow>
          Inr (this\<lparr>m_id := GenerateID ids_in_use\<rparr>,
               params\<lparr>m_targetStaff :=
                        Some ((CloneReset unset (ClearChildren (Staff_copy ids_in_use this)))
                                \<lparr>m_id := m_id this\<rparr>),
                      m_targetMeasure :=
                        Some (Measure_AddChild tm
                                ((CloneReset unset (ClearChildren (Staff_copy ids_in_use this)))
                                   \<lparr>m_id := m_id this\<rparr>))\<rparr>))"
  by (simp add: ConvertToCastOffMensural_def SwapID_def Let_def CloneReset_def
        Object_CloneReset_def ResetData_def ClearLedgerLines_def ClearChildren_def Staff_copy_def
      split: option.splits)

text \<open>
  Claim C3. When the target measure exists and the staff's identifier X is among the
  identifiers of the document, the call attaches one new staff to the target measure;
  that staff carries X, and the original carries the generated identifier, which no
  node of the document carries and which therefore differs from X. The staves that
  carry X among the original and the target measure are afterwards those of the target
  measure that carried it before, followed by the new staff; so when the identifiers
  were pairwise distinct before, they are pairwise distinct afterwards and the new staff
  is the only one that carries X.
\<close>

theorem ConvertToCastOffMensural_identity:
  assumes "m_targetMeasure params = Some tm"
    and "m_id this \<in> set ids_in_use"
  shows "\<exists>this' params' target tm'.
           ConvertToCastOffMensural unset ids_in_use this params = Inr (this', params')
         \<and> m_targetStaff params' = Some target
         \<and> m_targetMeasure params' = Some tm'
         \<and> measure_children tm' = measure_children tm @ [target]
         \<and> m_id target = m_id this
         \<and> m_id this' = GenerateID ids_in_use
         \<and> m_id this' \<notin> set ids_in_use
         \<and> m_id this' \<noteq> m_id this
         \<and> filter (\<lambda>s. m_id s = m_id this) (this' # measure_children tm')
             = filter (\<lambda>s. m_id s = m_id this) (measure_children tm) @ [target]
         \<and> (distinct (map m_id (this # measure_children tm))
              \<and> (\<forall>s \<in> set (measure_children tm). m_id s \<in> set ids_in_use) \<longrightarrow>
              filter (\<lambda>s. m_id s = m_id this) (this' # measure_children tm') = [target]
              \<and> distinct (map m_id (this' # measure_children tm')))"
proof -
  let ?t = "(CloneReset unset (ClearChildren (Staff_copy ids_in_use this)))\<lparr>m_id := m_id this\<rparr>"
  have fresh: "GenerateID ids_in_use \<notin> set ids_in_use" by (rule GenerateID_fresh)
  with assms(2) have ne: "GenerateID ids_in_use \<noteq> m_id this" by auto
  have inv: "distinct (map m_id (this # measure_children tm))
              \<and> (\<forall>s \<in> set (measure_children tm). m_id s \<in> set ids_in_use) \<longrightarrow>
              filter (\<lambda>s. m_id s = m_id this) (measure_children tm) = []
              \<and> distinct (GenerateID ids_in_use # map m_id (measure_children tm) @ [m_id this])"
  proof (intro impI, elim conjE)
    assume d: "distinct (map m_id (this # measure_children tm))"
      and u: "\<forall>s \<in> set (measure_children tm). m_id s \<in> set ids_in_use"
    from d have x: "m_id this \<notin> m_id ` set (measure_children tm)"
      and dt: "distinct (map m_id (measure_children tm))" by simp_all
    have "\<forall>s \<in> set (measure_children tm). m_id s \<noteq> m_id this"
    proof
      fix s assume "s \<in> set (measure_children tm)"
      then have "m_id s \<in> m_id ` set (measure_children tm)" by (rule imageI)
      with x show "m_id s \<noteq> m_id this" by auto
    qed
    then have f: "filter (\<lambda>s. m_id s = m_id this) (measure_children tm) = []"
      by (simp add: filter_empty_conv)
    from u fresh have g: "GenerateID ids_in_use \<notin> m_id ` set (measure_children tm)" by auto
    from f g x dt ne
    show "filter (\<lambda>s. m_id s = m_id this) (measure_children tm) = []
              \<and> distinct (GenerateID ids_in_use # map m_id (measure_children tm) @ [m_id this])"
      by auto
  qed
  show ?thesis
    unfolding ConvertToCastOffMensural_result
    using assms(1) fresh ne inv by (simp add: Measure_AddChild_def)
qed

theorem ConvertToCastOffMensural_identity_witness:
  "m_id example_staff \<in> set example_ids
   \<and> distinct (map m_id [example_staff, example_staff\<lparr>m_id := ''staff-W'', m_n := 2\<rparr>])
   \<and> ConvertToCastOffMensural example_unset example_ids example_staff example_params
     = Inr (example_staff\<lparr>m_id := ''staff-00000000''\<rparr>,
            \<lparr>m_targetStaff = Some example_clone,
             m_targetMeasure = Some \<lparr>measure_children =
                [example_staff\<lparr>m_id := ''staff-W'', m_n := 2\<rparr>, example_clone]\<rparr>\<rparr>)
   \<and> m_id example_clone = m_id example_staff
   \<and> distinct [''staff-00000000'', ''staff-W'', m_id example_clone]"
proof -
  have r: "ConvertToCastOffMensural example_unset example_ids example_staff example_params
     = Inr (example_staff\<lparr>m_id := ''staff-00000000''\<rparr>,
            \<lparr>m_targetStaff = Some example_clone,
             m_targetMeasure = Some \<lparr>measure_children =
                [example_staff\<lparr>m_id := ''staff-W'', m_n := 2\<rparr>, example_clone]\<rparr>\<rparr>)"
    by (simp add: ConvertToCastOffMensural_result example_params_def example_staff_def
          example_clone_def CloneReset_def Object_CloneReset_def ClearChildren_def Staff_copy_def
          ResetData_def ClearLedgerLines_def Measure_AddChild_def GenerateID_def example_ids_def
          example_unset_def)
  have h: "m_targetMeasure example_params
            = Some \<lparr>measure_children = [example_staff\<lparr>m_id := ''staff-W'', m_n := 2\<rparr>]\<rparr>"
    "m_id example_staff \<in> set example_ids"
    by (simp_all add: example_params_def example_staff_def example_ids_def)
  have d: "distinct (map m_id [example_staff, example_staff\<lparr>m_id := ''staff-W'', m_n := 2\<rparr>])"
    by (simp add: example_staff_def)
  have g: "GenerateID example_ids = ''staff-00000000''"
    by (simp add: GenerateID_def example_ids_def)
  have c: "m_id example_clone = m_id example_staff"
    "distinct [''staff-00000000'', ''staff-W'', m_id example_clone]"
    by (simp_all add: example_clone_def example_staff_def)
  from ConvertToCastOffMensural_identity[OF h, of example_unset] r d h(2) c show ?thesis
    by (simp add: g)
qed

text \<open>
  Claim C4, amended. When the target measure exists, the staff attached to it has no
  children, and its drawing staff size, line count, notation type, alignment reference,
  time-spanning list, staff-definition reference, tuning reference and four ledger-line
  buffers are those that \<open>Reset\<close> establishes, and its cached drawing Y is unset; its
  absolute Y is not reset: it is that of the original staff.
\<close>

theorem ConvertToCastOffMensural_clone_reset:
  assumes "m_targetMeasure params = Some tm"
  shows "\<exists>this' params' target tm'.
           ConvertToCastOffMensural unset ids_in_use this params = Inr (this', params')
         \<and> m_targetStaff params' = Some target
         \<and> m_targetMeasure params' = Some tm'
         \<and> measure_children tm' = measure_children tm @ [target]
         \<and> m_children target = []
         \<and> m_drawingStaffSize target = m_drawingStaffSize (Reset unset base_reset fresh)
         \<and> m_drawingLines target = m_drawingLines (Reset unset base_reset fresh)
         \<and> m_drawingNotationType target = m_drawingNotationType (Reset unset base_reset fresh)
         \<and> m_staffAlignment target = m_staffAlignment (Reset unset base_reset fresh)
         \<and> m_timeSpanningElements target = m_timeSpanningElements (Reset unset base_reset fresh)
         \<and> m_drawingStaffDef target = m_drawingStaffDef (Reset unset base_reset fresh)
         \<and> m_drawingTuning target = m_drawingTuning (Reset unset base_reset fresh)
         \<and> m_ledgerLinesAbove target = m_ledgerLinesAbove (Reset unset base_reset fresh)
         \<and> m_ledgerLinesBelow target = m_ledgerLinesBelow (Reset unset base_reset fresh)
         \<and> m_ledgerLinesAboveCue target = m_ledgerLinesAboveCue (Reset unset base_reset fresh)
         \<and> m_ledgerLinesBelowCue target = m_ledgerLinesBelowCue (Reset unset base_reset fresh)
         \<and> m_cachedDrawingY target = unset
         \<and> m_yAbs target = m_yAbs this"
  unfolding ConvertToCastOffMensural_result
  using assms
  by (simp add: CloneReset_def Object_CloneReset_def ResetData_def ClearChildren_def
        Staff_copy_def Reset_def ClearLedgerLines_def Measure_AddChild_def)

theorem ConvertToCastOffMensural_clone_reset_witness:
  "ConvertToCastOffMensural example_unset example_ids example_staff example_params
     = Inr (example_staff\<lparr>m_id := ''staff-00000000''\<rparr>,
            \<lparr>m_targetStaff = Some example_clone,
             m_targetMeasure = Some \<lparr>measure_children =
                [example_staff\<lparr>m_id := ''staff-W'', m_n := 2\<rparr>, example_clone]\<rparr>\<rparr>)
   \<and> m_children example_clone = []
   \<and> m_drawingStaffSize example_clone
       = m_drawingStaffSize (Reset example_unset (\<lambda>s. s) example_staff)
   \<and> m_ledgerLinesAbove example_staff = [[(0, 10)]]
   \<and> m_ledgerLinesAbove example_clone = []
   \<and> m_cachedDrawingY example_staff = 1200
   \<and> m_cachedDrawingY example_clone = example_unset
   \<and> m_yAbs example_clone = m_yAbs example_staff"
proof -
  have r: "ConvertToCastOffMensural example_unset example_ids example_staff example_params
     = Inr (example_staff\<lparr>m_id := ''staff-00000000''\<rparr>,
            \<lparr>m_targetStaff = Some example_clone,
             m_targetMeasure = Some \<lparr>measure_children =
                [example_staff\<lparr>m_id := ''staff-W'', m_n := 2\<rparr>, example_clone]\<rparr>\<rparr>)"
    by (simp add: ConvertToCastOffMensural_result example_params_def example_staff_def
          example_clone_def CloneReset_def Object_CloneReset_def ClearChildren_def Staff_copy_def
          ResetData_def ClearLedgerLines_def Measure_AddChild_def GenerateID_def example_ids_def
          example_unset_def)
  have h: "m_targetMeasure example_params
            = Some \<lparr>measure_children = [example_staff\<lparr>m_id := ''staff-W'', m_n := 2\<rparr>]\<rparr>"
    by (simp add: example_params_def)
  have e: "m_ledgerLinesAbove example_staff = [[(0, 10)]]" "m_cachedDrawingY example_staff = 1200"
    by (simp_all add: example_staff_def)
  from ConvertToCastOffMensural_clone_reset[OF h, of example_unset example_ids example_staff
         "\<lambda>s. s" example_staff] r e
  show ?thesis by (auto simp: Reset_def ClearLedgerLines_def)
qed

text \<open>
  Claim C4 as stated fails: the clone of a staff with absolute Y 500 has absolute Y 500,
  where \<open>Reset\<close> establishes the unset value. \<open>m_yAbs\<close> is a member of \<open>Staff\<close> that
  only \<open>Reset\<close> and \<open>ApplyPPUFactor\<close> assign; neither \<open>Staff::CloneReset\<close> nor
  \<open>Staff::ResetData\<close> does.
\<close>

theorem ConvertToCastOffMensural_clone_keeps_yAbs:
  "ConvertToCastOffMensural example_unset example_ids example_staff example_params
     = Inr (example_staff\<lparr>m_id := ''staff-00000000''\<rparr>,
            \<lparr>m_targetStaff = Some example_clone,
             m_targetMeasure = Some \<lparr>measure_children =
                [example_staff\<lparr>m_id := ''staff-W'', m_n := 2\<rparr>, example_clone]\<rparr>\<rparr>)
   \<and> m_yAbs example_clone = 500
   \<and> m_yAbs (Reset example_unset id example_staff) = - 2147483647"
  by (simp add: ConvertToCastOffMensural_result example_params_def example_staff_def
          example_clone_def CloneReset_def Object_CloneReset_def ClearChildren_def Staff_copy_def
          ResetData_def ClearLedgerLines_def Measure_AddChild_def Reset_def example_unset_def
          GenerateID_def example_ids_def)

section \<open>Properties of the CMME importer\<close>

lemma find_single:
  "length (filter P xs) \<le> 1 \<Longrightarrow> x \<in> set xs \<Longrightarrow> P x \<Longrightarrow> find P xs = Some x"
proof (induction xs)
  case Nil
  then show ?case by simp
next
  case (Cons y ys)
  show ?case
  proof (cases "P y")
    case True
    with Cons.prems(1) have "filter P ys = []" by simp
    with Cons.prems(2,3) have "x = y" by (auto simp: filter_empty_conv)
    with True show ?thesis by simp
  next
    case False
    with Cons show ?thesis by auto
  qed
qed

lemma ChildAsInt_selected:
  assumes "single_VoiceNum voice"
    and "list_ex (\<lambda>c. is_element ''VoiceNum'' c
                      \<and> list_ex (\<lambda>t. t = PCData text) (node_children c)) (node_children voice)"
  shows "ChildAsInt unset as_int voice ''VoiceNum'' = as_int text"
proof -
  from assms(2) obtain c where c: "c \<in> set (node_children voice)" "is_element ''VoiceNum'' c"
    "PCData text \<in> set (node_children c)"
    by (auto simp: list_ex_iff)
  from assms(1) have one: "length (filter (is_element ''VoiceNum'') (node_children voice)) \<le> 1"
    and one_text: "length (filter is_pcdata (node_children c)) \<le> 1"
    using c(1,2) by (auto simp: single_VoiceNum_def list_all_iff)
  have "select_child voice ''VoiceNum'' = Some c"
    unfolding select_child_def using one c(1,2) by (rule find_single)
  moreover have "find is_pcdata (node_children c) = Some (PCData text)"
    using one_text c(3) by (rule find_single) simp
  ultimately show ?thesis
    by (simp add: ChildAsInt_def AsInt_def node_text_def)
qed

lemma select_voice_Some:
  "select_voice section k = Some voice \<Longrightarrow>
   voice \<in> set (node_children section) \<and> is_element ''Voice'' voice
   \<and> list_ex (\<lambda>c. is_element ''VoiceNum'' c
                   \<and> list_ex (\<lambda>t. t = PCData (decimal k)) (node_children c)) (node_children voice)"
  unfolding select_voice_def by (auto simp: find_Some_iff)

lemma m_n_Staff_new: "m_n (Staff_new unset base_reset raw n) = n"
  by (simp add: Staff_new_def)

lemma m_n_AddChild: "m_n (snd (AddChild this child)) = m_n this"
  by (auto simp: AddChild_def split: prod.splits bool.splits)

lemma CreateStaff_selected:
  assumes "select_voice section (i + 1) = Some voice"
    and "\<forall>v \<in> set (node_children section). is_element ''Voice'' v \<longrightarrow> single_VoiceNum v"
    and "as_int (decimal (i + 1)) = int (i + 1)"
    and "i < numVoices"
  shows "CreateStaff unset base_reset as_int numVoices (raw i) voice
           = Inr (staff_for unset base_reset raw section i)"
proof -
  from select_voice_Some[OF assms(1)] assms(2)
  have "ChildAsInt unset as_int voice ''VoiceNum'' = as_int (decimal (i + 1))"
    by (intro ChildAsInt_selected) auto
  with assms(3) have n: "ChildAsInt unset as_int voice ''VoiceNum'' = int i + 1" by simp
  show ?thesis
    using assms(1,4) by (simp add: CreateStaff_def n staff_for_def)
qed

lemma section_loop_staves:
  assumes "\<forall>v \<in> set (node_children section). is_element ''Voice'' v \<longrightarrow> single_VoiceNum v"
    and "\<forall>i \<in> set idxs. i < numVoices \<and> as_int (decimal (i + 1)) = int (i + 1)"
  shows "section_loop unset base_reset as_int numVoices raw section idxs staves
           = Inr (staves @ map (staff_for unset base_reset raw section) idxs)"
  using assms(2)
proof (induction idxs arbitrary: staves)
  case Nil
  show ?case by simp
next
  case (Cons i rest)
  from Cons.prems have i: "i < numVoices" "as_int (decimal (i + 1)) = int (i + 1)"
    and r: "\<forall>i \<in> set rest. i < numVoices \<and> as_int (decimal (i + 1)) = int (i + 1)"
    by simp_all
  show ?case
  proof (cases "select_voice section (i + 1)")
    case None
    then show ?thesis
      using Cons.IH[OF r] by (simp add: staff_for_def)
  next
    case (Some voice)
    from CreateStaff_selected[where raw = raw and as_int = as_int, OF Some assms(1) i(2) i(1)]
    have "CreateStaff unset base_reset as_int numVoices (raw i) voice
           = Inr (staff_for unset base_reset raw section i)" .
    with Some show ?thesis
      using Cons.IH[OF r] by simp
  qed
qed

lemma m_n_staff_for: "m_n (staff_for unset base_reset raw section i) = int i + 1"
  by (simp add: staff_for_def m_n_Staff_new m_n_AddChild split: option.splits)

lemma m_visible_staff_for:
  "select_voice section (i + 1) = None \<Longrightarrow>
   m_visible (staff_for unset base_reset raw section i) = BOOLEAN_false"
  by (simp add: staff_for_def)

text \<open>
  Claim C10, amended. For a music section in which every \<open>Voice\<close> element has at most
  one \<open>VoiceNum\<close> child with at most one text node, and with a text conversion that
  reads the decimal digits of the voice numbers back, \<open>CreateSection\<close> gives the
  measure exactly \<open>numVoices\<close> staves, the staff at position \<open>i\<close> with number
  \<open>i + 1\<close>, so that the numbers are pairwise distinct; the staff of a voice that the
  section does not have is invisible.
\<close>

theorem CreateSection_staff_numbers:
  assumes "\<forall>v \<in> set (node_children section). is_element ''Voice'' v \<longrightarrow> single_VoiceNum v"
    and "\<forall>i \<in> set [0..<numVoices]. as_int (decimal (i + 1)) = int (i + 1)"
  shows "\<exists>staves.
           CreateSection unset base_reset as_int numVoices raw section = Inr staves
         \<and> length staves = numVoices
         \<and> map m_n staves = map (\<lambda>i. int i + 1) [0..<numVoices]
         \<and> distinct (map m_n staves)
         \<and> (\<forall>i < numVoices. select_voice section (i + 1) = None \<longrightarrow>
               m_visible (staves ! i) = BOOLEAN_false)"
proof -
  let ?staves = "map (staff_for unset base_reset raw section) [0..<numVoices]"
  have "\<forall>i \<in> set [0..<numVoices]. i < numVoices \<and> as_int (decimal (i + 1)) = int (i + 1)"
    using assms(2) by simp
  from section_loop_staves[OF assms(1) this]
  have r: "CreateSection unset base_reset as_int numVoices raw section = Inr ?staves"
    by (simp add: CreateSection_def)
  have n: "map m_n ?staves = map (\<lambda>i. int i + 1) [0..<numVoices]"
    by (simp add: m_n_staff_for)
  have "inj_on (\<lambda>i. int i + 1) (set [0..<numVoices])"
    by (rule inj_onI) simp
  then have d: "distinct (map m_n ?staves)"
    unfolding n by (simp add: distinct_map)
  have v: "\<forall>i < numVoices. select_voice section (i + 1) = None \<longrightarrow>
               m_visible (?staves ! i) = BOOLEAN_false"
    by (simp add: m_visible_staff_for)
  from r n d v show ?thesis by simp
qed

lemma decimal_small: "k < 10 \<Longrightarrow> decimal k = [digit_char k]"
  by (subst decimal.simps) simp

theorem CreateSection_staff_numbers_witness:
  "map_sum id (map m_n)
      (CreateSection example_unset id example_as_int 3 (\<lambda>i. example_staff) example_section)
     = Inr [1, 2, 3]
   \<and> map_sum id (map m_visible)
      (CreateSection example_unset id example_as_int 3 (\<lambda>i. example_staff) example_section)
     = Inr [BOOLEAN_NONE, BOOLEAN_false, BOOLEAN_NONE]"
proof -
  have d: "decimal 1 = ''1''" "decimal 2 = ''2''" "decimal 3 = ''3''"
    "decimal (Suc 0) = ''1''" "decimal (Suc (Suc 0)) = ''2''"
    by (simp_all add: decimal_small digit_char_def)
  have u3: "[0..<3] = [0, 1, 2]" by (simp add: upt_rec)
  have h1: "\<forall>v \<in> set (node_children example_section). is_element ''Voice'' v \<longrightarrow> single_VoiceNum v"
    by (simp add: example_section_def single_VoiceNum_def)
  have h2: "\<forall>i \<in> set [0..<3]. example_as_int (decimal (i + 1)) = int (i + 1)"
    by (simp add: u3 d example_as_int_def)
  have s: "select_voice example_section (Suc 1) = None"
    by (simp add: select_voice_def example_section_def d)
  have t: "select_voice example_section (Suc 0) \<noteq> None" "select_voice example_section (Suc 2) \<noteq> None"
    by (simp_all add: select_voice_def example_section_def d)
  from CreateSection_staff_numbers[OF h1 h2, of example_unset id "\<lambda>i. example_staff"]
  obtain staves where st:
    "CreateSection example_unset id example_as_int 3 (\<lambda>i. example_staff) example_section = Inr staves"
    "length staves = 3" "map m_n staves = map (\<lambda>i. int i + 1) [0..<3]"
    "\<forall>i < 3. select_voice example_section (i + 1) = None \<longrightarrow> m_visible (staves ! i) = BOOLEAN_false"
    by blast
  have r: "CreateSection example_unset id example_as_int 3 (\<lambda>i. example_staff) example_section
      = Inr [snd (AddChild (Staff_new example_unset id example_staff 1)
                 \<lparr>classId = LAYER, isEditorialElement = False, hasN = True, att_n = 1\<rparr>),
             (Staff_new example_unset id example_staff 2)\<lparr>m_visible := BOOLEAN_false\<rparr>,
             snd (AddChild (Staff_new example_unset id example_staff 3)
                 \<lparr>classId = LAYER, isEditorialElement = False, hasN = True, att_n = 1\<rparr>)]"
    using section_loop_staves[OF h1, of "[0..<3]" 3 example_as_int example_unset id "\<lambda>i. example_staff" "[]"] h2 s t
    by (auto simp: CreateSection_def u3 staff_for_def numeral_3_eq_3)
  have vis: "map m_visible [snd (AddChild (Staff_new example_unset id example_staff 1)
                 \<lparr>classId = LAYER, isEditorialElement = False, hasN = True, att_n = 1\<rparr>),
             (Staff_new example_unset id example_staff 2)\<lparr>m_visible := BOOLEAN_false\<rparr>,
             snd (AddChild (Staff_new example_unset id example_staff 3)
                 \<lparr>classId = LAYER, isEditorialElement = False, hasN = True, att_n = 1\<rparr>)]
       = [BOOLEAN_NONE, BOOLEAN_false, BOOLEAN_NONE]"
    by (simp add: AddChild_def IsSupportedChild_def Staff_new_def Reset_def ClearLedgerLines_def
          example_staff_def)
  from st(1,3) have "map_sum id (map m_n)
      (CreateSection example_unset id example_as_int 3 (\<lambda>i. example_staff) example_section)
     = Inr [1, 2, 3]"
    by (simp add: u3)
  with r vis show ?thesis by simp
qed

text \<open>
  Claim C10 as stated fails: a \<open>Voice\<close> with the two \<open>VoiceNum\<close> children 2 and 1 is
  selected for both voice numbers and read as voice 2 both times, so both staves of the
  measure have the number 2.
\<close>

theorem CreateSection_two_VoiceNum_children:
  "map_sum id (map m_n)
      (CreateSection example_unset id example_as_int 2 (\<lambda>i. example_staff)
         example_section_two_numbers)
     = Inr [2, 2]"
proof -
  have d: "decimal 1 = ''1''" "decimal 2 = ''2''"
    "decimal (Suc 0) = ''1''" "decimal (Suc (Suc 0)) = ''2''"
    by (simp_all add: decimal_small digit_char_def)
  have u2: "[0..<2] = [0, 1]" by (simp add: upt_rec)
  have v: "select_voice example_section_two_numbers (Suc 0)
        = Some (Element ''Voice''
          [Element ''VoiceNum'' [PCData ''2''], Element ''VoiceNum'' [PCData ''1''],
           Element ''EventList'' []])"
      "select_voice example_section_two_numbers (Suc (Suc 0))
        = Some (Element ''Voice''
          [Element ''VoiceNum'' [PCData ''2''], Element ''VoiceNum'' [PCData ''1''],
           Element ''EventList'' []])"
    by (simp_all add: select_voice_def example_section_two_numbers_def d numeral_2_eq_2[symmetric])
  have c: "ChildAsInt example_unset example_as_int (Element ''Voice''
          [Element ''VoiceNum'' [PCData ''2''], Element ''VoiceNum'' [PCData ''1''],
           Element ''EventList'' []]) ''VoiceNum'' = 2"
    by (simp add: ChildAsInt_def AsInt_def select_child_def node_text_def example_as_int_def)
  show ?thesis
    by (simp add: CreateSection_def u2 v c CreateStaff_def m_n_AddChild m_n_Staff_new)
qed

end
